theory Spec2Isabelle
  imports Complex_Main
begin

section \<open>Segmented shortest-path retrieval over a hop-bounded graph store\<close>

text \<open>
  A shallow embedding of the request handler \<open>run_graph_query\<close> of
  \<^verbatim>\<open>spanner_graph_run_DQ.py\<close> (and of its single-query predecessor in
  \<^verbatim>\<open>spanner_graph_run.py\<close>).  The graph store and the logging sink are external: they
  are parameters of the model.  Every call made to them is recorded, in order, in a trace,
  so that statements about which queries are issued can be read off the result.
\<close>

subsection \<open>Data model\<close>

text \<open>One element of \<open>outputs\<close>: the dictionary built from a result row.\<close>

record output_dict =
  STARTNODEID :: int
  SEGMENTID :: int
  ENDNODEID :: int

text \<open>
  A result row is the list of its column values; the columns read by the handler are
  integer columns.  An answer of the store is either an exception (with the text that
  \<open>str(e)\<close> gives) or the rows that iterating over the result set yields.
\<close>

type_synonym row = "int list"

type_synonym answer = "string + row list"

text \<open>
  The store answers a query text.  Each query of a request runs in a snapshot of its own,
  so the answer may also depend on how many queries the request has issued before.
\<close>

type_synonym store = "nat \<Rightarrow> string \<Rightarrow> answer"

datatype severity = INFO | WARNING | ERROR

record log_record =
  message :: string
  query :: string
  result_count :: nat
  results :: "output_dict list"

datatype log_call =
    Log_text string severity
  | Log_struct log_record severity

text \<open>The logging sink: \<open>None\<close> when the call returns, \<open>Some m\<close> when it raises.\<close>

type_synonym logger = "log_call \<Rightarrow> string option"

text \<open>The four query shapes of the handler and the one of its predecessor, with the values
  that are formatted into the template.\<close>

datatype gql =
    Path_length_query int int
  | End_node_query int int
  | Gql_query_chunk int int int
  | Gql_query int int int
  | Gql_query_basic int int

datatype event =
    is_Executed: Executed gql answer
  | Logged log_call "string option"

text \<open>The JSON bodies the handler builds, and what a request ends with: a response with its
  status code, or an exception that leaves the handler.\<close>

datatype body =
    Error_body string
  | Message_body string int
  | Outputs_body "output_dict list"

datatype outcome =
    Response body nat
  | Unhandled string

text \<open>
  A request parameter after \<open>request.args.get\<close>: missing or empty (what \<open>not x\<close>
  accepts), a text that \<open>int\<close> rejects with \<open>ValueError\<close>, or a text that \<open>int\<close>
  parses.
\<close>

datatype param = Absent | Not_an_integer | Integer int

text \<open>How a block of statements ends: it falls through with a value, it returns a
  response, or it raises.\<close>

datatype 'a flow = Normal 'a | Return body nat | Raise string

subsection \<open>Formatting\<close>

text \<open>\<open>str\<close> of a Python integer, which is what \<open>format\<close> and an f-string insert.\<close>

definition digit_char :: "nat \<Rightarrow> char" where
  "digit_char d = ''0123456789'' ! d"

fun str_nat :: "nat \<Rightarrow> string" where
  "str_nat n = (if n < 10 then [digit_char n] else str_nat (n div 10) @ [digit_char (n mod 10)])"

declare str_nat.simps [simp del]

definition str_int :: "int \<Rightarrow> string" where
  "str_int i = (if i < 0 then CHR ''-'' # str_nat (nat (- i)) else str_nat (nat i))"

text \<open>The text of each query: the template with the values formatted in.\<close>

fun render :: "gql \<Rightarrow> string" where
  "render (Path_length_query start_node end_node) =
     ''\<newline>            Graph INVENTARIO2\<newline>            MATCH\<newline>            ANY SHORTEST (\<newline>            (src:NODO {NODEID: ''
     @ str_int start_node
     @ ''})-[s:SEGMENTO | REVERSE_SEGMENTO]->{1, 100}(dest:NODO {NODEID: ''
     @ str_int end_node
     @ ''})\<newline>            )\<newline>            LET path_length = COUNT(s)\<newline>            RETURN  path_length\<newline>        ''"
| "render (End_node_query start_node chunk_size) =
     ''\<newline>                        Graph INVENTARIO2\<newline>                        MATCH\<newline>                        ANY SHORTEST (\<newline>                        (src:NODO {NODEID: ''
     @ str_int start_node
     @ ''})-[s:SEGMENTO | REVERSE_SEGMENTO]->{1, ''
     @ str_int chunk_size
     @ ''}(dest:NODO))\<newline>                        LET path_length = COUNT(s)\<newline>                        FILTER path_length = ''
     @ str_int chunk_size
     @ ''\<newline>                        RETURN path_length,dest.NODEID as end_node\<newline>                    ''"
| "render (Gql_query_chunk start_node end_node chunk_size) =
     ''\<newline>                    Graph INVENTARIO2\<newline>                    MATCH\<newline>                    p = ANY SHORTEST (\<newline>                    (src:NODO {NODEID: ''
     @ str_int start_node
     @ ''})-[s:SEGMENTO | REVERSE_SEGMENTO]->{1, ''
     @ str_int chunk_size
     @ ''}(dest:NODO {NODEID: ''
     @ str_int end_node
     @ ''})\<newline>                    )\<newline>                    LET es = EDGES(p)\<newline>                    FOR element in es\<newline>                    RETURN element.STARTNODEID, element.SEGMENTID, element.ENDNODEID\<newline>                ''"
| "render (Gql_query start_node end_node path_length) =
     ''\<newline>                Graph INVENTARIO2\<newline>                MATCH\<newline>                p = ANY SHORTEST (\<newline>                (src:NODO {NODEID: ''
     @ str_int start_node
     @ ''})-[s:SEGMENTO | REVERSE_SEGMENTO]->{1, ''
     @ str_int path_length
     @ ''}(dest:NODO {NODEID: ''
     @ str_int end_node
     @ ''})\<newline>                )\<newline>                LET es = EDGES(p)\<newline>                FOR element in es\<newline>                RETURN element.STARTNODEID, element.SEGMENTID, element.ENDNODEID\<newline>            ''"
| "render (Gql_query_basic start_node end_node) =
     ''\<newline>        Graph INVENTARIO2\<newline>        MATCH\<newline>        p = ANY SHORTEST (\<newline>        (src:NODO {NODEID: ''
     @ str_int start_node
     @ ''})-[s:SEGMENTO | REVERSE_SEGMENTO]->{1, 20}(dest:NODO {NODEID: ''
     @ str_int end_node
     @ ''})\<newline>        )\<newline>        LET es = EDGES(p)\<newline>        FOR element in es\<newline>        RETURN element.STARTNODEID, element.SEGMENTID, element.ENDNODEID\<newline>    ''"

declare render.simps [simp del]

definition missing_message :: string where
  "missing_message = ''Missing '' @ [CHR 0x27] @ ''start_node'' @ [CHR 0x27] @ '' or ''
     @ [CHR 0x27] @ ''end_node'' @ [CHR 0x27] @ '' parameter.''"

definition invalid_message :: string where
  "invalid_message = ''Invalid '' @ [CHR 0x27] @ ''start_node'' @ [CHR 0x27] @ '' or ''
     @ [CHR 0x27] @ ''end_node'' @ [CHR 0x27] @ '' parameter. Must be an integer.''"

definition no_path_message :: string where
  "no_path_message = ''No path found between the specified nodes.''"

definition no_boundary_message :: "int \<Rightarrow> int \<Rightarrow> string" where
  "no_boundary_message current_start_node chunk_size =
     ''Could not find an intermediate node from '' @ str_int current_start_node
     @ '' at distance '' @ str_int chunk_size"

definition success_message :: "int \<Rightarrow> int \<Rightarrow> string" where
  "success_message start_node_id end_node_id =
     ''GQL query executed successfully for start_node='' @ str_int start_node_id
     @ '' and end_node='' @ str_int end_node_id"

definition error_occurred :: "string \<Rightarrow> string" where
  "error_occurred e = ''An error occurred: '' @ e"

subsection \<open>The two collaborators\<close>

definition queries_issued :: "event list \<Rightarrow> nat" where
  "queries_issued tr = length (filter is_Executed tr)"

text \<open>\<open>snapshot.execute_sql(q)\<close>, iterated: the text is all the store receives.\<close>

definition execute_sql :: "store \<Rightarrow> event list \<Rightarrow> gql \<Rightarrow> event list \<times> answer" where
  "execute_sql st tr q =
     (let a = st (queries_issued tr) (render q) in (tr @ [Executed q a], a))"

definition log_call :: "logger \<Rightarrow> event list \<Rightarrow> log_call \<Rightarrow> event list \<times> string option" where
  "log_call lg tr c = (tr @ [Logged c (lg c)], lg c)"

text \<open>\<open>row[i]\<close>: an index past the end of the row raises \<open>IndexError\<close>.\<close>

definition row_get :: "row \<Rightarrow> nat \<Rightarrow> string + int" where
  "row_get r i = (if i < length r then Inr (r ! i) else Inl ''list index out of range'')"

subsection \<open>The handler\<close>

text \<open>Lines 57 to 62: the first row's first column, or 0 when there is no row.\<close>

definition resolve_path_length ::
  "store \<Rightarrow> event list \<Rightarrow> int \<Rightarrow> int \<Rightarrow> event list \<times> (string + int)" where
  "resolve_path_length st tr start_node_id end_node_id =
     (case execute_sql st tr (Path_length_query start_node_id end_node_id) of
        (tr', Inl e) \<Rightarrow> (tr', Inl e)
      | (tr', Inr []) \<Rightarrow> (tr', Inr 0)
      | (tr', Inr (r # _)) \<Rightarrow> (tr', row_get r 0))"

text \<open>Lines 120 to 124: the dictionary of a row that has its three columns.\<close>

definition output_of_row :: "row \<Rightarrow> output_dict" where
  "output_of_row r = \<lparr>STARTNODEID = r ! 0, SEGMENTID = r ! 1, ENDNODEID = r ! 2\<rparr>"

text \<open>The loop over the rows of a result that appends one dictionary per row; a row with
  fewer than three columns raises \<open>IndexError\<close>.\<close>

fun append_rows :: "output_dict list \<Rightarrow> row list \<Rightarrow> string + output_dict list" where
  "append_rows outs [] = Inr outs"
| "append_rows outs (r # rs) =
     (if length r < 3 then Inl ''list index out of range''
      else append_rows (outs @ [output_of_row r]) rs)"

text \<open>Lines 117 to 125 and 142 to 150: run a path query and append its rows.\<close>

definition fetch_edges ::
  "store \<Rightarrow> event list \<Rightarrow> gql \<Rightarrow> output_dict list \<Rightarrow> event list \<times> (string + output_dict list)" where
  "fetch_edges st tr q outs =
     (case execute_sql st tr q of
        (tr', Inl e) \<Rightarrow> (tr', Inl e)
      | (tr', Inr rows) \<Rightarrow> (tr', append_rows outs rows))"

text \<open>The variables of the chunking loop.\<close>

record loop_state =
  remaining_path_length :: int
  current_start_node :: int
  outputs :: "output_dict list"
  gql_query :: string

text \<open>Lines 78 to 97: the end node of the chunk.  For the last chunk it is the end node of
  the request; otherwise it is the second column of the first row of the boundary query,
  and stays \<open>None\<close> when that query has no row.\<close>

definition intermediate_end_node ::
  "store \<Rightarrow> event list \<Rightarrow> int \<Rightarrow> loop_state \<Rightarrow> event list \<times> (string + int option)" where
  "intermediate_end_node st tr end_node_id s =
     (let chunk_size = min 20 (remaining_path_length s) in
      if remaining_path_length s \<le> 20 then (tr, Inr (Some end_node_id))
      else
        (case execute_sql st tr (End_node_query (current_start_node s) chunk_size) of
           (tr', Inl e) \<Rightarrow> (tr', Inl e)
         | (tr', Inr []) \<Rightarrow> (tr', Inr None)
         | (tr', Inr (r # _)) \<Rightarrow> (tr', map_sum id Some (row_get r 1))))"

text \<open>Lines 76 to 128: one iteration of the loop.\<close>

definition loop_body ::
  "store \<Rightarrow> logger \<Rightarrow> int \<Rightarrow> event list \<Rightarrow> loop_state \<Rightarrow> event list \<times> loop_state flow" where
  "loop_body st lg end_node_id tr s =
     (let chunk_size = min 20 (remaining_path_length s) in
      case intermediate_end_node st tr end_node_id s of
        (tr1, Inl e) \<Rightarrow> (tr1, Raise e)
      | (tr1, Inr None) \<Rightarrow>
          (let error_message = no_boundary_message (current_start_node s) chunk_size in
           case log_call lg tr1 (Log_text error_message ERROR) of
             (tr2, Some e) \<Rightarrow> (tr2, Raise e)
           | (tr2, None) \<Rightarrow> (tr2, Return (Error_body error_message) 500))
      | (tr1, Inr (Some n)) \<Rightarrow>
          (let gql_query_chunk = Gql_query_chunk (current_start_node s) n chunk_size in
           case fetch_edges st tr1 gql_query_chunk (outputs s) of
             (tr2, Inl e) \<Rightarrow> (tr2, Raise e)
           | (tr2, Inr outs) \<Rightarrow>
               (tr2, Normal \<lparr>remaining_path_length = remaining_path_length s - chunk_size,
                              current_start_node = n,
                              outputs = outs,
                              gql_query = gql_query s @ render gql_query_chunk\<rparr>)))"

text \<open>Lines 75 to 128: the loop.\<close>

function chunk_loop ::
  "store \<Rightarrow> logger \<Rightarrow> int \<Rightarrow> event list \<Rightarrow> loop_state \<Rightarrow> event list \<times> loop_state flow" where
  "chunk_loop st lg end_node_id tr s =
     (if 0 < remaining_path_length s then
        (case loop_body st lg end_node_id tr s of
           (tr', Normal s') \<Rightarrow> chunk_loop st lg end_node_id tr' s'
         | (tr', Return b c) \<Rightarrow> (tr', Return b c)
         | (tr', Raise e) \<Rightarrow> (tr', Raise e))
      else (tr, Normal s))"
  by pat_completeness auto
termination
  by (relation "measure (\<lambda>(st, lg, end_node_id, tr, s). nat (remaining_path_length s))")
    (auto simp: loop_body_def Let_def split: prod.splits sum.splits option.splits)

declare chunk_loop.simps [simp del]

text \<open>Lines 152 to 163: the structured log record, then the response.\<close>

definition log_and_return ::
  "logger \<Rightarrow> event list \<Rightarrow> int \<Rightarrow> int \<Rightarrow> output_dict list \<Rightarrow> string
     \<Rightarrow> event list \<times> (string + body \<times> nat)" where
  "log_and_return lg tr start_node_id end_node_id outs q =
     (case log_call lg tr
             (Log_struct \<lparr>message = success_message start_node_id end_node_id,
                           query = q,
                           result_count = length outs,
                           results = outs\<rparr> INFO) of
        (tr', Some e) \<Rightarrow> (tr', Inl e)
      | (tr', None) \<Rightarrow> (tr', Inr (Outputs_body outs, 200)))"

text \<open>Lines 45 to 163: the body of the \<open>try\<close> statement.  It raises (\<open>Inl\<close>) or returns
  a body and a status code.\<close>

definition try_block ::
  "store \<Rightarrow> logger \<Rightarrow> int \<Rightarrow> int \<Rightarrow> event list \<times> (string + body \<times> nat)" where
  "try_block st lg start_node_id end_node_id =
     (case resolve_path_length st [] start_node_id end_node_id of
        (tr1, Inl e) \<Rightarrow> (tr1, Inl e)
      | (tr1, Inr path_length) \<Rightarrow>
          if path_length = 0 then
            (case log_call lg tr1 (Log_text no_path_message WARNING) of
               (tr2, Some e) \<Rightarrow> (tr2, Inl e)
             | (tr2, None) \<Rightarrow> (tr2, Inr (Message_body no_path_message 0, 200)))
          else if 20 < path_length then
            (case chunk_loop st lg end_node_id tr1
                    \<lparr>remaining_path_length = path_length, current_start_node = start_node_id,
                     outputs = [], gql_query = []\<rparr> of
               (tr2, Raise e) \<Rightarrow> (tr2, Inl e)
             | (tr2, Return b c) \<Rightarrow> (tr2, Inr (b, c))
             | (tr2, Normal s) \<Rightarrow>
                 log_and_return lg tr2 start_node_id end_node_id (outputs s) (gql_query s))
          else
            (case fetch_edges st tr1 (Gql_query start_node_id end_node_id path_length) [] of
               (tr2, Inl e) \<Rightarrow> (tr2, Inl e)
             | (tr2, Inr outs) \<Rightarrow>
                 log_and_return lg tr2 start_node_id end_node_id outs
                   (render (Gql_query start_node_id end_node_id path_length))))"

text \<open>Lines 165 to 168: the handler of the \<open>try\<close> statement.  An exception of the logging
  call made here leaves the function.\<close>

definition except_block :: "logger \<Rightarrow> event list \<Rightarrow> string \<Rightarrow> event list \<times> outcome" where
  "except_block lg tr e =
     (let error_message = error_occurred e in
      case log_call lg tr (Log_text error_message ERROR) of
        (tr', Some e') \<Rightarrow> (tr', Unhandled e')
      | (tr', None) \<Rightarrow> (tr', Response (Error_body error_message) 500))"

text \<open>Lines 32 to 43: a response with status 400, logged first, outside the \<open>try\<close>
  statement.\<close>

definition reject :: "logger \<Rightarrow> string \<Rightarrow> event list \<times> outcome" where
  "reject lg error_message =
     (case log_call lg [] (Log_text error_message ERROR) of
        (tr, Some e) \<Rightarrow> (tr, Unhandled e)
      | (tr, None) \<Rightarrow> (tr, Response (Error_body error_message) 400))"

text \<open>Lines 45 and 165: the \<open>try\<close> statement around a block.\<close>

fun try_except :: "logger \<Rightarrow> event list \<times> (string + body \<times> nat) \<Rightarrow> event list \<times> outcome" where
  "try_except lg (tr, Inl e) = except_block lg tr e"
| "try_except lg (tr, Inr (b, c)) = (tr, Response b c)"

fun run_graph_query :: "store \<Rightarrow> logger \<Rightarrow> param \<Rightarrow> param \<Rightarrow> event list \<times> outcome" where
  "run_graph_query st lg Absent end_node = reject lg missing_message"
| "run_graph_query st lg start_node Absent = reject lg missing_message"
| "run_graph_query st lg Not_an_integer end_node = reject lg invalid_message"
| "run_graph_query st lg start_node Not_an_integer = reject lg invalid_message"
| "run_graph_query st lg (Integer start_node_id) (Integer end_node_id) =
     try_except lg (try_block st lg start_node_id end_node_id)"

subsection \<open>The single-query handler\<close>

text \<open>\<open>run_graph_query\<close> of \<^verbatim>\<open>spanner_graph_run.py\<close>: one path query with the fixed hop
  range, the same logging and the same \<open>try\<close> statement around both.\<close>

definition try_block_basic ::
  "store \<Rightarrow> logger \<Rightarrow> int \<Rightarrow> int \<Rightarrow> event list \<times> (string + body \<times> nat)" where
  "try_block_basic st lg start_node_id end_node_id =
     (case fetch_edges st [] (Gql_query_basic start_node_id end_node_id) [] of
        (tr, Inl e) \<Rightarrow> (tr, Inl e)
      | (tr, Inr outs) \<Rightarrow>
          log_and_return lg tr start_node_id end_node_id outs
            (render (Gql_query_basic start_node_id end_node_id)))"

fun run_graph_query_basic :: "store \<Rightarrow> logger \<Rightarrow> param \<Rightarrow> param \<Rightarrow> event list \<times> outcome" where
  "run_graph_query_basic st lg Absent end_node = reject lg missing_message"
| "run_graph_query_basic st lg start_node Absent = reject lg missing_message"
| "run_graph_query_basic st lg Not_an_integer end_node = reject lg invalid_message"
| "run_graph_query_basic st lg start_node Not_an_integer = reject lg invalid_message"
| "run_graph_query_basic st lg (Integer start_node_id) (Integer end_node_id) =
     try_except lg (try_block_basic st lg start_node_id end_node_id)"

subsection \<open>Reading a trace\<close>

text \<open>The queries of a trace, in the order in which they were issued.\<close>

fun queries :: "event list \<Rightarrow> gql list" where
  "queries [] = []"
| "queries (Executed q a # evs) = q # queries evs"
| "queries (Logged c r # evs) = queries evs"

text \<open>The hop bounds of the segment queries of the loop.\<close>

fun chunk_sizes :: "gql list \<Rightarrow> int list" where
  "chunk_sizes [] = []"
| "chunk_sizes (Gql_query_chunk a b c # qs) = c # chunk_sizes qs"
| "chunk_sizes (q # qs) = chunk_sizes qs"

text \<open>The rows that the segment queries of the loop were answered with.\<close>

fun segment_answers :: "event list \<Rightarrow> row list list" where
  "segment_answers [] = []"
| "segment_answers (Executed (Gql_query_chunk a b c) (Inr rows) # evs) = rows # segment_answers evs"
| "segment_answers (ev # evs) = segment_answers evs"

text \<open>The contiguity invariant of a path: each edge ends where the next one starts.\<close>

fun contiguous :: "output_dict list \<Rightarrow> bool" where
  "contiguous (x # y # es) = (ENDNODEID x = STARTNODEID y \<and> contiguous (y # es))"
| "contiguous es = True"

text \<open>A call that lets the handler go on: a boundary query answered with a first row of at
  least two columns, a segment query answered with rows of at least three columns, a
  logging call that returns.\<close>

fun answered :: "event \<Rightarrow> bool" where
  "answered (Executed (End_node_query a c) (Inr (r # rs))) = (2 \<le> length r)"
| "answered (Executed (End_node_query a c) ans) = False"
| "answered (Executed (Gql_query_chunk a b c) (Inr rows)) = list_all (\<lambda>r. 3 \<le> length r) rows"
| "answered (Executed (Gql_query_chunk a b c) (Inl e)) = False"
| "answered (Executed q ans) = True"
| "answered (Logged c r) = (r = None)"

subsection \<open>The loop seen from outside\<close>

text \<open>The values that \<open>chunk_size\<close> takes when the loop is run on a remaining length,
  with no store behind it.\<close>

function chunk_plan :: "int \<Rightarrow> int list" where
  "chunk_plan r = (if 0 < r then min 20 r # chunk_plan (r - min 20 r) else [])"
  by pat_completeness auto
termination
  by (relation "measure nat") auto

declare chunk_plan.simps [simp del]

text \<open>The loop with a budget of iterations: \<open>None\<close> when the budget is used up before the
  loop is left.\<close>

fun chunk_loop_bounded ::
  "nat \<Rightarrow> store \<Rightarrow> logger \<Rightarrow> int \<Rightarrow> event list \<Rightarrow> loop_state
     \<Rightarrow> (event list \<times> loop_state flow) option" where
  "chunk_loop_bounded 0 st lg end_node_id tr s =
     (if 0 < remaining_path_length s then None else Some (tr, Normal s))"
| "chunk_loop_bounded (Suc k) st lg end_node_id tr s =
     (if 0 < remaining_path_length s then
        (case loop_body st lg end_node_id tr s of
           (tr', Normal s') \<Rightarrow> chunk_loop_bounded k st lg end_node_id tr' s'
         | (tr', Return b c) \<Rightarrow> Some (tr', Return b c)
         | (tr', Raise e) \<Rightarrow> Some (tr', Raise e))
      else Some (tr, Normal s))"

subsection \<open>Stores and logging sinks to run the handler on\<close>

text \<open>A store that holds the listed answers and has no row for any other query.\<close>

definition table_store :: "(gql \<times> row list) list \<Rightarrow> store" where
  "table_store tab n txt =
     (case map_of (map (\<lambda>(q, rows). (render q, rows)) tab) txt of
        Some rows \<Rightarrow> Inr rows
      | None \<Rightarrow> Inr [])"

text \<open>The edge rows of the chain \<open>a \<rightarrow> a + 1 \<rightarrow> \<dots> \<rightarrow> a + n\<close>: start node, segment, end node.\<close>

definition chain_rows :: "int \<Rightarrow> nat \<Rightarrow> row list" where
  "chain_rows a n = map (\<lambda>i. [a + int i, 1000 + a + int i, a + int i + 1]) [0..<n]"

text \<open>A sink that takes every call.\<close>

definition quiet :: logger where
  "quiet c = None"

text \<open>A sink that is down for structured records only.\<close>

definition struct_down :: logger where
  "struct_down c = (case c of Log_struct r v \<Rightarrow> Some ''logging unavailable'' | Log_text m v \<Rightarrow> None)"

text \<open>The scenario of the spec: the shortest path from node 1 has 47 edges; the store holds
  the chain \<open>1 \<rightarrow> 2 \<rightarrow> \<dots> \<rightarrow> 48\<close>.\<close>

definition store47 :: store where
  "store47 = table_store
     [(Path_length_query 1 48, [[47]]),
      (End_node_query 1 20, [[20, 21]]),
      (Gql_query_chunk 1 21 20, chain_rows 1 20),
      (End_node_query 21 20, [[20, 41]]),
      (Gql_query_chunk 21 41 20, chain_rows 21 20),
      (Gql_query_chunk 41 48 7, chain_rows 41 7)]"

text \<open>The same chain, in a store that has no row for the boundary query from node 21.\<close>

definition store_gap :: store where
  "store_gap = table_store
     [(Path_length_query 1 48, [[47]]),
      (End_node_query 1 20, [[20, 21]]),
      (Gql_query_chunk 1 21 20, chain_rows 1 20)]"

text \<open>The chain \<open>1 \<rightarrow> 2 \<rightarrow> 3 \<rightarrow> 4\<close>, for the handler and for its predecessor.\<close>

definition store3 :: store where
  "store3 = table_store
     [(Path_length_query 1 4, [[3]]),
      (Gql_query 1 4 3, chain_rows 1 3)]"

definition store_basic :: store where
  "store_basic = table_store [(Gql_query_basic 1 4, chain_rows 1 3)]"

text \<open>The chain \<open>1 \<rightarrow> 2 \<rightarrow> \<dots> \<rightarrow> 102\<close> behind a store that follows at most 100 hops: node 101
  is 100 hops from node 1, node 102 is out of reach of the length query.\<close>

definition store_far :: store where
  "store_far = table_store [(Path_length_query 1 101, [[100]])]"

text \<open>A store whose answer to the second segment query starts at node 99, not at node 21
  where the first segment ends.\<close>

definition store_torn :: store where
  "store_torn = table_store
     [(Path_length_query 1 22, [[21]]),
      (End_node_query 1 20, [[20, 21]]),
      (Gql_query_chunk 1 21 20, chain_rows 1 20),
      (Gql_query_chunk 21 22 1, [[99, 1099, 22]])]"

text \<open>The chain \<open>1 \<rightarrow> 2 \<rightarrow> \<dots> \<rightarrow> 23\<close> and an edge from node 20 to node 99, which has no
  outgoing edge.  Two nodes are 20 hops from node 1; the store lists node 99 first.\<close>

definition store_fork :: store where
  "store_fork = table_store
     [(Path_length_query 1 22, [[21]]),
      (Path_length_query 1 23, [[22]]),
      (End_node_query 1 20, [[20, 99], [20, 21]]),
      (Gql_query_chunk 1 99 20, chain_rows 1 19 @ [[20, 2020, 99]]),
      (Gql_query_chunk 1 21 20, chain_rows 1 20),
      (Gql_query_chunk 21 22 1, chain_rows 21 1),
      (Gql_query_chunk 21 23 2, chain_rows 21 2)]"

section \<open>Properties\<close>

subsection \<open>Traces, rows and texts\<close>

lemma queries_append: "queries (xs @ ys) = queries xs @ queries ys"
  by (induction xs rule: queries.induct) simp_all

lemma chunk_sizes_append: "chunk_sizes (xs @ ys) = chunk_sizes xs @ chunk_sizes ys"
  by (induction xs rule: chunk_sizes.induct) simp_all

lemma segment_answers_append: "segment_answers (xs @ ys) = segment_answers xs @ segment_answers ys"
  by (induction xs rule: segment_answers.induct) simp_all

lemma queries_of_logs:
  "\<forall>ev \<in> set ls. \<exists>c r. ev = Logged c r \<Longrightarrow> queries ls = []"
  by (induction ls) auto

lemma segment_answers_of_logs:
  "\<forall>ev \<in> set ls. \<exists>c r. ev = Logged c r \<Longrightarrow> segment_answers ls = []"
  by (induction ls) auto

lemma split_after:
  "xs @ ys = pre @ a # post \<Longrightarrow> a \<notin> set xs \<Longrightarrow> \<exists>pre'. pre = xs @ pre' \<and> ys = pre' @ a # post"
proof (induction xs arbitrary: pre)
  case Nil
  then show ?case by simp
next
  case (Cons x xs)
  from Cons.prems obtain pre0 where pre: "pre = x # pre0" and "xs @ ys = pre0 @ a # post"
    by (cases pre) auto
  with Cons.IH [of pre0] Cons.prems(2) show ?case by auto
qed

lemma split_before:
  "ys @ zs = pre @ a # post \<Longrightarrow> a \<notin> set zs \<Longrightarrow> \<exists>post'. ys = pre @ a # post' \<and> post = post' @ zs"
proof (induction ys arbitrary: pre)
  case Nil
  then have "a \<in> set zs" by (metis in_set_conv_decomp append_Nil)
  with Nil show ?case by simp
next
  case (Cons y ys)
  show ?case
  proof (cases pre)
    case Nil
    with Cons.prems show ?thesis by simp
  next
    case (Cons p pre0)
    with Cons.prems have "ys @ zs = pre0 @ a # post" and "p = y" by simp_all
    with Cons.IH [of pre0] Cons.prems(2) Cons show ?thesis by auto
  qed
qed

lemma append_rows_eq:
  "append_rows outs rows =
     (if list_all (\<lambda>r. 3 \<le> length r) rows then Inr (outs @ map output_of_row rows)
      else Inl ''list index out of range'')"
  by (induction rows arbitrary: outs) (auto simp: not_less)

lemma length_chain_rows [simp]: "length (chain_rows a n) = n"
  by (simp add: chain_rows_def)

lemma chain_rows_wide: "list_all (\<lambda>r. 3 \<le> length r) (chain_rows a n)"
  by (simp add: chain_rows_def list_all_iff)

lemma digit_char_digit: "d < 10 \<Longrightarrow> digit_char d \<in> set ''0123456789''"
  unfolding digit_char_def by (rule nth_mem) simp

lemma str_nat_digits: "set (str_nat n) \<subseteq> set ''0123456789''"
proof (induction n rule: str_nat.induct)
  case (1 n)
  show ?case
  proof (cases "n < 10")
    case True
    then have "str_nat n = [digit_char n]"
      by (subst str_nat.simps) simp
    moreover have "set [digit_char n] \<subseteq> set ''0123456789''"
      using digit_char_digit [OF True] by (simp only: list.set insert_subset empty_subsetI simp_thms)
    ultimately show ?thesis by (simp only:)
  next
    case False
    then have "str_nat n = str_nat (n div 10) @ [digit_char (n mod 10)]"
      by (subst str_nat.simps) simp
    moreover have "n mod 10 < 10" by simp
    then have "set [digit_char (n mod 10)] \<subseteq> set ''0123456789''"
      using digit_char_digit [of "n mod 10"]
      by (simp only: list.set insert_subset empty_subsetI simp_thms)
    moreover note "1.IH" [OF False]
    ultimately show ?thesis by (simp only: set_append Un_subset_iff simp_thms)
  qed
qed

lemma str_int_chars: "set (str_int i) \<subseteq> set ''-0123456789''"
proof (cases "i < 0")
  case True
  then have "set (str_int i) = insert CHR ''-'' (set (str_nat (nat (- i))))"
    by (simp add: str_int_def)
  also have "\<dots> \<subseteq> insert CHR ''-'' (set ''0123456789'')"
    by (rule insert_mono) (rule str_nat_digits)
  also have "\<dots> = set ''-0123456789''"
    by (simp only: list.set)
  finally show ?thesis .
next
  case False
  then have "set (str_int i) = set (str_nat (nat i))"
    by (simp add: str_int_def)
  also have "\<dots> \<subseteq> set ''0123456789''" by (rule str_nat_digits)
  also have "\<dots> \<subseteq> set ''-0123456789''" by (rule set_subset_Cons)
  finally show ?thesis .
qed

subsection \<open>The parts of the handler\<close>

lemma except_block_eq:
  "except_block lg tr m =
     (tr @ [Logged (Log_text (error_occurred m) ERROR) (lg (Log_text (error_occurred m) ERROR))],
      case lg (Log_text (error_occurred m) ERROR) of
        Some m' \<Rightarrow> Unhandled m'
      | None \<Rightarrow> Response (Error_body (error_occurred m)) 500)"
  by (simp add: except_block_def log_call_def Let_def split: option.splits)

lemma log_and_return_eq:
  "log_and_return lg tr a b outs q =
     (tr @ [Logged (Log_struct \<lparr>message = success_message a b, query = q,
                                 result_count = length outs, results = outs\<rparr> INFO)
              (lg (Log_struct \<lparr>message = success_message a b, query = q,
                                 result_count = length outs, results = outs\<rparr> INFO))],
      case lg (Log_struct \<lparr>message = success_message a b, query = q,
                            result_count = length outs, results = outs\<rparr> INFO) of
        Some m \<Rightarrow> Inl m
      | None \<Rightarrow> Inr (Outputs_body outs, 200))"
  by (simp add: log_and_return_def log_call_def split: option.splits)

lemma resolve_path_length_eq:
  "resolve_path_length st tr a b =
     (tr @ [Executed (Path_length_query a b) (st (queries_issued tr) (render (Path_length_query a b)))],
      case st (queries_issued tr) (render (Path_length_query a b)) of
        Inl m \<Rightarrow> Inl m
      | Inr [] \<Rightarrow> Inr 0
      | Inr (r # rs) \<Rightarrow> row_get r 0)"
  by (simp add: resolve_path_length_def execute_sql_def Let_def split: sum.splits list.splits)

lemma fst_resolve_path_length:
  "fst (resolve_path_length st [] a b)
     = [Executed (Path_length_query a b) (st 0 (render (Path_length_query a b)))]"
  by (simp add: resolve_path_length_eq queries_issued_def)

lemma fetch_edges_eq:
  "fetch_edges st tr q outs =
     (tr @ [Executed q (st (queries_issued tr) (render q))],
      case st (queries_issued tr) (render q) of
        Inl m \<Rightarrow> Inl m
      | Inr rows \<Rightarrow> append_rows outs rows)"
  by (simp add: fetch_edges_def execute_sql_def Let_def split: sum.splits)

text \<open>What one iteration adds to the trace and how it ends, case by case.\<close>

lemma loop_body_cases [consumes 1, case_names last raised absent short found]:
  assumes "loop_body st lg e tr s = (tr', fl)"
  obtains
    a where "remaining_path_length s \<le> 20"
      "tr' = tr @ [Executed (Gql_query_chunk (current_start_node s) e (remaining_path_length s)) a]"
      "fl = (case a of Inl m \<Rightarrow> Raise m
             | Inr rows \<Rightarrow>
                (case append_rows (outputs s) rows of Inl m \<Rightarrow> Raise m
                 | Inr outs \<Rightarrow> Normal \<lparr>remaining_path_length = 0,
                     current_start_node = e, outputs = outs,
                     gql_query = gql_query s @ render (Gql_query_chunk (current_start_node s) e (remaining_path_length s))\<rparr>))"
  | m where "20 < remaining_path_length s"
      "tr' = tr @ [Executed (End_node_query (current_start_node s) 20) (Inl m)]"
      "fl = Raise m"
  | "20 < remaining_path_length s"
      "tr' = tr @ [Executed (End_node_query (current_start_node s) 20) (Inr []),
                   Logged (Log_text (no_boundary_message (current_start_node s) 20) ERROR)
                     (lg (Log_text (no_boundary_message (current_start_node s) 20) ERROR))]"
      "fl = (case lg (Log_text (no_boundary_message (current_start_node s) 20) ERROR) of
               Some m \<Rightarrow> Raise m
             | None \<Rightarrow> Return (Error_body (no_boundary_message (current_start_node s) 20)) 500)"
  | r rs where "20 < remaining_path_length s" "length r < 2"
      "tr' = tr @ [Executed (End_node_query (current_start_node s) 20) (Inr (r # rs))]"
      "fl = Raise ''list index out of range''"
  | r rs a where "20 < remaining_path_length s" "2 \<le> length r"
      "tr' = tr @ [Executed (End_node_query (current_start_node s) 20) (Inr (r # rs)),
                   Executed (Gql_query_chunk (current_start_node s) (r ! 1) 20) a]"
      "fl = (case a of Inl m \<Rightarrow> Raise m
             | Inr rows \<Rightarrow>
                (case append_rows (outputs s) rows of Inl m \<Rightarrow> Raise m
                 | Inr outs \<Rightarrow> Normal \<lparr>remaining_path_length = remaining_path_length s - 20,
                     current_start_node = r ! 1, outputs = outs,
                     gql_query = gql_query s @ render (Gql_query_chunk (current_start_node s) (r ! 1) 20)\<rparr>))"
proof (cases "remaining_path_length s \<le> 20")
  case True
  then have m: "min 20 (remaining_path_length s) = remaining_path_length s" by simp
  let ?q = "Gql_query_chunk (current_start_node s) e (remaining_path_length s)"
  let ?a = "st (queries_issued tr) (render ?q)"
  have "tr' = tr @ [Executed ?q ?a]"
    using assms True m
    by (auto simp: loop_body_def intermediate_end_node_def fetch_edges_def execute_sql_def Let_def
          split: sum.splits)
  moreover have "fl = (case ?a of Inl m \<Rightarrow> Raise m
             | Inr rows \<Rightarrow>
                (case append_rows (outputs s) rows of Inl m \<Rightarrow> Raise m
                 | Inr outs \<Rightarrow> Normal \<lparr>remaining_path_length = 0,
                     current_start_node = e, outputs = outs,
                     gql_query = gql_query s @ render ?q\<rparr>))"
    using assms True m
    by (auto simp: loop_body_def intermediate_end_node_def fetch_edges_def execute_sql_def Let_def
          split: sum.splits)
  ultimately show ?thesis using True by (intro that(1))
next
  case False
  then have big: "20 < remaining_path_length s" by simp
  then have m: "min 20 (remaining_path_length s) = 20" by simp
  let ?b = "End_node_query (current_start_node s) 20"
  let ?ab = "st (queries_issued tr) (render ?b)"
  have i: "intermediate_end_node st tr e s =
      (tr @ [Executed ?b ?ab],
       case ?ab of Inl m \<Rightarrow> Inl m | Inr [] \<Rightarrow> Inr None | Inr (r # rs) \<Rightarrow> map_sum id Some (row_get r 1))"
    using big by (simp add: intermediate_end_node_def execute_sql_def Let_def m split: sum.splits list.splits)
  show ?thesis
  proof (cases ?ab)
    case (Inl m')
    with i assms m have "tr' = tr @ [Executed ?b (Inl m')]" "fl = Raise m'"
      by (auto simp: loop_body_def Let_def)
    with big show ?thesis by (rule that(2))
  next
    case (Inr rows)
    show ?thesis
    proof (cases rows)
      case Nil
      with Inr i assms m have
        "tr' = tr @ [Executed ?b (Inr []),
                   Logged (Log_text (no_boundary_message (current_start_node s) 20) ERROR)
                     (lg (Log_text (no_boundary_message (current_start_node s) 20) ERROR))]"
        "fl = (case lg (Log_text (no_boundary_message (current_start_node s) 20) ERROR) of
               Some m \<Rightarrow> Raise m
             | None \<Rightarrow> Return (Error_body (no_boundary_message (current_start_node s) 20)) 500)"
        by (auto simp: loop_body_def Let_def log_call_def split: option.splits)
      with big show ?thesis by (rule that(3))
    next
      case (Cons r rs)
      show ?thesis
      proof (cases "length r < 2")
        case True
        with Cons Inr i assms m have "tr' = tr @ [Executed ?b (Inr (r # rs))]"
          "fl = Raise ''list index out of range''"
          by (auto simp: loop_body_def Let_def row_get_def)
        with big True show ?thesis by (rule that(4))
      next
        case False
        then have two: "2 \<le> length r" by simp
        let ?q = "Gql_query_chunk (current_start_node s) (r ! 1) 20"
        let ?a = "st (queries_issued (tr @ [Executed ?b ?ab])) (render ?q)"
        have "tr' = tr @ [Executed ?b (Inr (r # rs)), Executed ?q ?a]"
          using Cons Inr i assms m False
          by (auto simp: loop_body_def Let_def row_get_def fetch_edges_def execute_sql_def
               split: sum.splits)
        moreover have "fl = (case ?a of Inl m \<Rightarrow> Raise m
             | Inr rows \<Rightarrow>
                (case append_rows (outputs s) rows of Inl m \<Rightarrow> Raise m
                 | Inr outs \<Rightarrow> Normal \<lparr>remaining_path_length = remaining_path_length s - 20,
                     current_start_node = r ! 1, outputs = outs,
                     gql_query = gql_query s @ render ?q\<rparr>))"
          using Cons Inr i assms m False
          by (auto simp: loop_body_def Let_def row_get_def fetch_edges_def execute_sql_def
               split: sum.splits)
        ultimately show ?thesis using big two by (intro that(5))
      qed
    qed
  qed
qed

lemma loop_body_prefix:
  assumes "loop_body st lg e tr s = (tr', fl)"
  shows "\<exists>ext. tr' = tr @ ext"
  using assms by (cases rule: loop_body_cases) simp_all

lemma loop_body_decreases:
  assumes "loop_body st lg e tr s = (tr', Normal s')"
  shows "remaining_path_length s' = remaining_path_length s - min 20 (remaining_path_length s)"
  using assms
  by (cases rule: loop_body_cases) (auto split: sum.splits option.splits)

text \<open>Induction over the iterations of the loop, for a property of what a run of the loop
  adds to the trace and of how it ends.\<close>

lemma chunk_loop_ext [consumes 1, case_names stop leave step]:
  assumes run: "chunk_loop st lg e tr s = (tr', fl)"
    and stop: "\<And>s. \<not> 0 < remaining_path_length s \<Longrightarrow> Q s [] (Normal s)"
    and leave: "\<And>tr s ext fl. 0 < remaining_path_length s \<Longrightarrow>
        loop_body st lg e tr s = (tr @ ext, fl) \<Longrightarrow> (\<forall>s'. fl \<noteq> Normal s') \<Longrightarrow> Q s ext fl"
    and step: "\<And>tr s ext1 s1 ext2 fl. 0 < remaining_path_length s \<Longrightarrow>
        loop_body st lg e tr s = (tr @ ext1, Normal s1) \<Longrightarrow> Q s1 ext2 fl \<Longrightarrow>
        Q s (ext1 @ ext2) fl"
  shows "\<exists>ext. tr' = tr @ ext \<and> Q s ext fl"
  using run
proof (induction "nat (remaining_path_length s)" arbitrary: tr s tr' fl rule: less_induct)
  case less
  show ?case
  proof (cases "0 < remaining_path_length s")
    case False
    with less.prems have "tr' = tr" "fl = Normal s"
      by (simp_all add: chunk_loop.simps [of st lg e tr s])
    with stop [OF False] show ?thesis by simp
  next
    case True
    obtain tr1 fl1 where b: "loop_body st lg e tr s = (tr1, fl1)"
      by (cases "loop_body st lg e tr s")
    from loop_body_prefix [OF b] obtain ext1 where tr1: "tr1 = tr @ ext1" ..
    show ?thesis
    proof (cases fl1)
      case (Normal s1)
      with True b less.prems have rest: "chunk_loop st lg e tr1 s1 = (tr', fl)"
        by (simp add: chunk_loop.simps [of st lg e tr s])
      from b Normal have b': "loop_body st lg e tr s = (tr1, Normal s1)" by simp
      from loop_body_decreases [OF b'] True
      have "nat (remaining_path_length s1) < nat (remaining_path_length s)" by simp
      from less.hyps [OF this rest] obtain ext2
        where ext2: "tr' = tr1 @ ext2" and q2: "Q s1 ext2 fl" by blast
      from b' tr1 have "loop_body st lg e tr s = (tr @ ext1, Normal s1)" by simp
      from step [OF True this q2] ext2 tr1 show ?thesis by simp
    next
      case (Return bd c)
      with True b less.prems have "tr' = tr1" "fl = fl1"
        by (simp_all add: chunk_loop.simps [of st lg e tr s])
      moreover from b tr1 Return have "Q s ext1 fl1"
        by (intro leave [OF True]) simp_all
      ultimately show ?thesis using tr1 by simp
    next
      case (Raise m)
      with True b less.prems have "tr' = tr1" "fl = fl1"
        by (simp_all add: chunk_loop.simps [of st lg e tr s])
      moreover from b tr1 Raise have "Q s ext1 fl1"
        by (intro leave [OF True]) simp_all
      ultimately show ?thesis using tr1 by simp
    qed
  qed
qed

text \<open>The four ways through the block, by what the length query resolves.\<close>

lemma resolved_cases [case_names failed none short long]:
  obtains m where "snd (resolve_path_length st [] a b) = Inl m"
  | "snd (resolve_path_length st [] a b) = Inr 0"
  | L where "snd (resolve_path_length st [] a b) = Inr L" "L \<noteq> 0" "L \<le> 20"
  | L where "snd (resolve_path_length st [] a b) = Inr L" "20 < L"
proof (cases "snd (resolve_path_length st [] a b)")
  case (Inl m)
  then show ?thesis by (rule that(1))
next
  case (Inr L)
  then show ?thesis
    using that(2) that(3) [of L] that(4) [of L] by (cases "L = 0"; cases "20 < L") simp_all
qed

lemma try_block_failed:
  assumes "snd (resolve_path_length st [] a b) = Inl m"
  shows "try_block st lg a b = (fst (resolve_path_length st [] a b), Inl m)"
  using assms by (simp add: try_block_def resolve_path_length_eq)

lemma try_block_none:
  assumes "snd (resolve_path_length st [] a b) = Inr 0"
  shows "try_block st lg a b =
     (fst (resolve_path_length st [] a b)
        @ [Logged (Log_text no_path_message WARNING) (lg (Log_text no_path_message WARNING))],
      case lg (Log_text no_path_message WARNING) of
        Some m \<Rightarrow> Inl m
      | None \<Rightarrow> Inr (Message_body no_path_message 0, 200))"
  using assms
  by (simp add: try_block_def resolve_path_length_eq log_call_def split: option.splits)

lemma try_block_short:
  assumes "snd (resolve_path_length st [] a b) = Inr L" and "L \<noteq> 0" and "L \<le> 20"
  shows "try_block st lg a b =
     (case fetch_edges st (fst (resolve_path_length st [] a b)) (Gql_query a b L) [] of
        (tr2, Inl m) \<Rightarrow> (tr2, Inl m)
      | (tr2, Inr outs) \<Rightarrow> log_and_return lg tr2 a b outs (render (Gql_query a b L)))"
  using assms by (simp add: try_block_def resolve_path_length_eq)

lemma try_block_long:
  assumes "snd (resolve_path_length st [] a b) = Inr L" and "20 < L"
  shows "try_block st lg a b =
       (case chunk_loop st lg b (fst (resolve_path_length st [] a b))
               \<lparr>remaining_path_length = L, current_start_node = a, outputs = [], gql_query = []\<rparr> of
          (tr2, Raise e) \<Rightarrow> (tr2, Inl e)
        | (tr2, Return bd c) \<Rightarrow> (tr2, Inr (bd, c))
        | (tr2, Normal s) \<Rightarrow> log_and_return lg tr2 a b (outputs s) (gql_query s))"
  using assms by (simp add: try_block_def resolve_path_length_eq)

text \<open>A request that enters the loop: the trace is the length query, what the loop adds,
  and the logging calls of the end of the request.\<close>

lemma run_long_shape:
  assumes run: "run_graph_query st lg (Integer a) (Integer b) = (tr, out)"
    and len: "snd (resolve_path_length st [] a b) = Inr L" and big: "20 < L"
  obtains ext fl where
    "chunk_loop st lg b (fst (resolve_path_length st [] a b))
       \<lparr>remaining_path_length = L, current_start_node = a, outputs = [], gql_query = []\<rparr>
     = (fst (resolve_path_length st [] a b) @ ext, fl)"
    "try_except lg
       (case fl of
          Raise m \<Rightarrow> (fst (resolve_path_length st [] a b) @ ext, Inl m)
        | Return bd c \<Rightarrow> (fst (resolve_path_length st [] a b) @ ext, Inr (bd, c))
        | Normal s \<Rightarrow> log_and_return lg (fst (resolve_path_length st [] a b) @ ext)
              a b (outputs s) (gql_query s))
     = (tr, out)"
proof -
  let ?tr0 = "fst (resolve_path_length st [] a b)"
  let ?s0 = "\<lparr>remaining_path_length = L, current_start_node = a, outputs = [], gql_query = []\<rparr>"
  obtain tr2 fl where loop: "chunk_loop st lg b ?tr0 ?s0 = (tr2, fl)"
    by (cases "chunk_loop st lg b ?tr0 ?s0")
  obtain ext where tr2: "tr2 = ?tr0 @ ext"
    using chunk_loop_ext [OF loop, where Q = "\<lambda>s ext fl. True"] by auto
  from run have "try_except lg (try_block st lg a b) = (tr, out)" by simp
  with loop have "try_except lg
      (case fl of Raise m \<Rightarrow> (tr2, Inl m) | Return bd c \<Rightarrow> (tr2, Inr (bd, c))
       | Normal s \<Rightarrow> log_and_return lg tr2 a b (outputs s) (gql_query s)) = (tr, out)"
    by (simp add: try_block_long [OF len big] split: flow.splits)
  with loop show ?thesis unfolding tr2 by (rule that)
qed

lemma finish_shape:
  assumes "try_except lg
       (case fl of
          Raise m \<Rightarrow> (tr2, Inl m)
        | Return bd c \<Rightarrow> (tr2, Inr (bd, c))
        | Normal s \<Rightarrow> log_and_return lg tr2 a b (outputs s) (gql_query s))
     = (tr, out)"
  shows "\<exists>ls. tr = tr2 @ ls \<and> (\<forall>ev \<in> set ls. \<exists>c r. ev = Logged c r)"
proof (cases fl)
  case (Normal s)
  with assms show ?thesis
    by (cases "lg (Log_struct \<lparr>message = success_message a b, query = gql_query s,
                               result_count = length (outputs s), results = outputs s\<rparr> INFO)")
       (auto simp: log_and_return_eq except_block_eq)
next
  case (Return bd c)
  with assms show ?thesis by auto
next
  case (Raise m)
  with assms show ?thesis by (auto simp: except_block_eq)
qed

lemma finish_trace:
  assumes "try_except lg (log_and_return lg tr2 a b outs q) = (tr, out)"
  shows "\<exists>ls. tr = tr2 @ ls \<and> queries ls = []"
  using assms
  by (cases "lg (Log_struct \<lparr>message = success_message a b, query = q,
                                 result_count = length outs, results = outs\<rparr> INFO)")
     (auto simp: log_and_return_eq except_block_eq)

text \<open>Only a request that enters the loop issues a boundary query.\<close>

lemma no_boundary_query_outside_loop:
  assumes run: "run_graph_query st lg (Integer a) (Integer b) = (tr, out)"
    and short: "\<And>L. snd (resolve_path_length st [] a b) = Inr L \<Longrightarrow> L \<le> 20"
  shows "Executed (End_node_query n c) ans \<notin> set tr"
proof (cases rule: resolved_cases [of st a b])
  case (failed m)
  with run show ?thesis
    by (auto simp: try_block_failed resolve_path_length_eq except_block_eq)
next
  case none
  with run show ?thesis
    by (cases "lg (Log_text no_path_message WARNING)")
       (auto simp: try_block_none resolve_path_length_eq except_block_eq)
next
  case (short L)
  with run show ?thesis
    by (cases "st (Suc 0) (render (Gql_query a b L))")
       (auto simp: try_block_short resolve_path_length_eq fetch_edges_eq log_and_return_eq
             except_block_eq queries_issued_def split: sum.splits option.splits)
next
  case (long L)
  with short [of L] show ?thesis by simp
qed

subsection \<open>The loop\<close>

lemma chunk_loop_sizes:
  assumes "chunk_loop st lg e tr s = (tr', Normal s')"
  shows "chunk_sizes (queries tr') = chunk_sizes (queries tr) @ chunk_plan (remaining_path_length s)"
proof -
  let ?Q = "\<lambda>s ext fl. \<forall>s'. fl = Normal s' \<longrightarrow>
              chunk_sizes (queries ext) = chunk_plan (remaining_path_length s)"
  have "\<exists>ext. tr' = tr @ ext \<and> ?Q s ext (Normal s')"
  proof (rule chunk_loop_ext [where Q = ?Q, OF assms])
    fix s :: loop_state
    assume "\<not> 0 < remaining_path_length s"
    then show "?Q s [] (Normal s)"
      by (simp add: chunk_plan.simps [of "remaining_path_length s"])
  next
    fix tr s ext fl
    assume "\<forall>s'. fl \<noteq> Normal s'"
    then show "?Q s ext fl" by simp
  next
    fix tr s ext1 s1 ext2 fl
    assume pos: "0 < remaining_path_length s"
      and body: "loop_body st lg e tr s = (tr @ ext1, Normal s1)"
      and rest: "?Q s1 ext2 fl"
    from body have "chunk_sizes (queries ext1) = [min 20 (remaining_path_length s)]"
      by (cases rule: loop_body_cases) (auto split: sum.splits option.splits)
    with pos rest loop_body_decreases [OF body] show "?Q s (ext1 @ ext2) fl"
      by (simp add: chunk_plan.simps [of "remaining_path_length s"] queries_append chunk_sizes_append)
  qed
  then show ?thesis by (auto simp: queries_append chunk_sizes_append)
qed

lemma chunk_loop_returns_error:
  assumes "chunk_loop st lg e tr s = (tr', Return b c)"
  shows "c = 500 \<and> (\<exists>m. b = Error_body m)"
proof -
  let ?Q = "\<lambda>(s::loop_state) (ext::event list) (fl::loop_state flow). \<forall>b c. fl = Return b c \<longrightarrow> c = (500::nat) \<and> (\<exists>m. b = Error_body m)"
  have "\<exists>ext. tr' = tr @ ext \<and> ?Q s ext (Return b c)"
  proof (rule chunk_loop_ext [where Q = ?Q, OF assms])
    fix s :: loop_state
    show "?Q s [] (Normal s)" by simp
  next
    fix tr s ext fl
    assume "loop_body st lg e tr s = (tr @ ext, fl)"
    then show "?Q s ext fl"
      by (cases rule: loop_body_cases) (auto split: sum.splits option.splits)
  next
    fix s :: loop_state and ext1 ext2 :: "event list" and s1 fl
    assume "?Q s1 ext2 fl"
    then show "?Q s (ext1 @ ext2) fl" by simp
  qed
  then show ?thesis by simp
qed

text \<open>After a boundary query without a row, the loop logs the error and is left.\<close>

lemma chunk_loop_absent:
  assumes "chunk_loop st lg e tr s = (tr', fl)"
  shows "\<exists>ext. tr' = tr @ ext \<and>
     (\<forall>pre n c post. ext = pre @ Executed (End_node_query n c) (Inr []) # post \<longrightarrow>
        post = [Logged (Log_text (no_boundary_message n c) ERROR)
                  (lg (Log_text (no_boundary_message n c) ERROR))]
      \<and> fl = (case lg (Log_text (no_boundary_message n c) ERROR) of
                 Some m \<Rightarrow> Raise m
               | None \<Rightarrow> Return (Error_body (no_boundary_message n c)) 500))"
proof -
  let ?Q = "\<lambda>(s::loop_state) ext (fl::loop_state flow).
     \<forall>pre n c post. ext = pre @ Executed (End_node_query n c) (Inr []) # post \<longrightarrow>
        post = [Logged (Log_text (no_boundary_message n c) ERROR)
                  (lg (Log_text (no_boundary_message n c) ERROR))]
      \<and> fl = (case lg (Log_text (no_boundary_message n c) ERROR) of
                 Some m \<Rightarrow> Raise m
               | None \<Rightarrow> Return (Error_body (no_boundary_message n c)) 500)"
  show ?thesis
  proof (rule chunk_loop_ext [where Q = ?Q, OF assms])
    fix s :: loop_state
    show "?Q s [] (Normal s)" by simp
  next
    fix tr s ext fl
    assume "loop_body st lg e tr s = (tr @ ext, fl)"
    then show "?Q s ext fl"
      by (cases rule: loop_body_cases) (auto simp: Cons_eq_append_conv)
  next
    fix tr s ext1 s1 ext2 fl
    assume body: "loop_body st lg e tr s = (tr @ ext1, Normal s1)" and rest: "?Q s1 ext2 fl"
    from body have no: "\<And>n c. Executed (End_node_query n c) (Inr []) \<notin> set ext1"
      by (cases rule: loop_body_cases) (auto split: option.splits)
    show "?Q s (ext1 @ ext2) fl"
    proof (intro allI impI)
      fix pre n c post
      assume "ext1 @ ext2 = pre @ Executed (End_node_query n c) (Inr []) # post"
      from split_after [OF this no] obtain pre'
        where "ext2 = pre' @ Executed (End_node_query n c) (Inr []) # post" by blast
      with rest show "post = [Logged (Log_text (no_boundary_message n c) ERROR)
                  (lg (Log_text (no_boundary_message n c) ERROR))]
      \<and> fl = (case lg (Log_text (no_boundary_message n c) ERROR) of
                 Some m \<Rightarrow> Raise m
               | None \<Rightarrow> Return (Error_body (no_boundary_message n c)) 500)"
        by blast
    qed
  qed
qed

text \<open>What follows a boundary query in what the loop adds to the trace.\<close>

lemma chunk_loop_boundary:
  assumes "chunk_loop st lg e tr s = (tr', fl)"
  shows "\<exists>ext. tr' = tr @ ext \<and>
     (\<forall>pre n c ans post. ext = pre @ Executed (End_node_query n c) ans # post \<longrightarrow>
        c = 20 \<and>
        (\<forall>r rs. ans = Inr (r # rs) \<and> 2 \<le> length r \<longrightarrow>
           (\<exists>ans' post'. post = Executed (Gql_query_chunk n (r ! 1) 20) ans' # post')))"
proof -
  let ?Q = "\<lambda>(s::loop_state) ext (fl::loop_state flow).
     \<forall>pre n c ans post. ext = pre @ Executed (End_node_query n c) ans # post \<longrightarrow>
        c = (20::int) \<and>
        (\<forall>r rs. ans = Inr (r # rs) \<and> 2 \<le> length r \<longrightarrow>
           (\<exists>ans' post'. post = Executed (Gql_query_chunk n (r ! 1) 20) ans' # post'))"
  show ?thesis
  proof (rule chunk_loop_ext [where Q = ?Q, OF assms])
    fix s :: loop_state
    show "?Q s [] (Normal s)" by simp
  next
    fix tr s ext fl
    assume "loop_body st lg e tr s = (tr @ ext, fl)"
    then show "?Q s ext fl"
      by (cases rule: loop_body_cases) (auto simp: Cons_eq_append_conv)
  next
    fix tr s ext1 s1 ext2 fl
    assume body: "loop_body st lg e tr s = (tr @ ext1, Normal s1)" and rest: "?Q s1 ext2 fl"
    from body have one: "?Q s ext1 (Normal s1)"
      by (cases rule: loop_body_cases) (auto simp: Cons_eq_append_conv)
    show "?Q s (ext1 @ ext2) fl"
    proof (intro allI impI)
      fix pre n c ans post
      assume eq: "ext1 @ ext2 = pre @ Executed (End_node_query n c) ans # post"
      show "c = 20 \<and>
        (\<forall>r rs. ans = Inr (r # rs) \<and> 2 \<le> length r \<longrightarrow>
           (\<exists>ans' post'. post = Executed (Gql_query_chunk n (r ! 1) 20) ans' # post'))"
      proof -
        from eq consider
          us where "ext1 = pre @ us" "us @ ext2 = Executed (End_node_query n c) ans # post"
        | us where "ext1 @ us = pre" "ext2 = us @ Executed (End_node_query n c) ans # post"
          by (auto simp: append_eq_append_conv2)
        then show ?thesis
        proof cases
          case 2
          with rest show ?thesis by blast
        next
          case 1
          show ?thesis
          proof (cases us)
            case Nil
            with 1 have "ext2 = [] @ Executed (End_node_query n c) ans # post" by simp
            with rest show ?thesis by blast
          next
            case (Cons u us')
            with 1 have ext1: "ext1 = pre @ Executed (End_node_query n c) ans # us'"
              and post: "post = us' @ ext2" by simp_all
            from one ext1 have c: "c = 20" and
              nxt: "\<And>r rs. ans = Inr (r # rs) \<Longrightarrow> 2 \<le> length r \<Longrightarrow>
                \<exists>ans' post'. us' = Executed (Gql_query_chunk n (r ! 1) 20) ans' # post'"
              by blast+
            with post show ?thesis by fastforce
          qed
        qed
      qed
    qed
  qed
qed

text \<open>While every call is answered, the loop goes on and appends the rows of each segment.\<close>

lemma chunk_loop_answered:
  assumes "chunk_loop st lg e tr s = (tr', fl)"
  shows "\<exists>ext. tr' = tr @ ext \<and>
     (list_all answered ext \<longrightarrow>
        (\<exists>s'. fl = Normal s' \<and>
           outputs s' = outputs s @ concat (map (map output_of_row) (segment_answers ext))))"
proof -
  let ?Q = "\<lambda>(s::loop_state) ext (fl::loop_state flow). list_all answered ext \<longrightarrow>
        (\<exists>s'. fl = Normal s' \<and>
           outputs s' = outputs s @ concat (map (map output_of_row) (segment_answers ext)))"
  show ?thesis
  proof (rule chunk_loop_ext [where Q = ?Q, OF assms])
    fix s :: loop_state
    show "?Q s [] (Normal s)" by simp
  next
    fix tr s ext fl
    assume "loop_body st lg e tr s = (tr @ ext, fl)" and "\<forall>s'. fl \<noteq> Normal s'"
    then show "?Q s ext fl"
      by (cases rule: loop_body_cases)
         (auto simp: append_rows_eq split: sum.splits if_splits)
  next
    fix tr s ext1 s1 ext2 fl
    assume body: "loop_body st lg e tr s = (tr @ ext1, Normal s1)" and rest: "?Q s1 ext2 fl"
    from body have "outputs s1 = outputs s @ concat (map (map output_of_row) (segment_answers ext1))"
      by (cases rule: loop_body_cases)
         (auto simp: append_rows_eq split: sum.splits if_splits option.splits)
    with rest show "?Q s (ext1 @ ext2) fl"
      by (auto simp: segment_answers_append)
  qed
qed

text \<open>The loop logs no structured record.\<close>

lemma chunk_loop_no_struct:
  assumes "chunk_loop st lg e tr s = (tr', fl)"
  shows "\<exists>ext. tr' = tr @ ext \<and> (\<forall>rec sev res. Logged (Log_struct rec sev) res \<notin> set ext)"
proof -
  let ?Q = "\<lambda>(s::loop_state) ext (fl::loop_state flow).
     \<forall>rec sev res. Logged (Log_struct rec sev) res \<notin> set ext"
  show ?thesis
  proof (rule chunk_loop_ext [where Q = ?Q, OF assms])
    fix s :: loop_state
    show "?Q s [] (Normal s)" by simp
  next
    fix tr s ext fl
    assume "loop_body st lg e tr s = (tr @ ext, fl)"
    then show "?Q s ext fl"
      by (cases rule: loop_body_cases) auto
  next
    fix tr s ext1 s1 ext2 fl
    assume body: "loop_body st lg e tr s = (tr @ ext1, Normal s1)" and rest: "?Q s1 ext2 fl"
    from body have "?Q s ext1 (Normal s1)"
      by (cases rule: loop_body_cases) auto
    with rest show "?Q s (ext1 @ ext2) fl" by simp
  qed
qed

text \<open>The end of a request, when the block has not logged a structured record before.\<close>

lemma finish_struct:
  assumes fin: "try_except lg (log_and_return lg tr2 a b outs q) = (tr, out)"
    and no: "\<And>rec sev res. Logged (Log_struct rec sev) res \<notin> set tr2"
    and ev: "Logged (Log_struct rec sev) res \<in> set tr"
  shows "(res = None \<longrightarrow> out = Response (Outputs_body (results rec)) 200)
       \<and> (\<forall>m. res = Some m \<longrightarrow>
            out = (case lg (Log_text (error_occurred m) ERROR) of
                     Some m' \<Rightarrow> Unhandled m'
                   | None \<Rightarrow> Response (Error_body (error_occurred m)) 500))"
  using fin ev no
  by (cases "lg (Log_struct \<lparr>message = success_message a b, query = q,
                               result_count = length outs, results = outs\<rparr> INFO)")
     (auto simp: log_and_return_eq except_block_eq)

lemma raise_no_struct:
  assumes "try_except lg (tr2, Inl m) = (tr, out)"
    and "\<And>rec sev res. Logged (Log_struct rec sev) res \<notin> set tr2"
  shows "Logged (Log_struct rec sev) res \<notin> set tr"
  using assms by (auto simp: except_block_eq)

subsection \<open>Chunk sizes\<close>

lemma div_mod_20:
  fixes r :: int
  obtains q m where "q = (r - 1) div 20" "r - 1 = 20 * q + m" "0 \<le> m" "m < 20"
proof
  show "(r - 1) div 20 = (r - 1) div 20" ..
  show "r - 1 = 20 * ((r - 1) div 20) + (r - 1) mod 20" by simp
  show "0 \<le> (r - 1) mod 20" by simp
  show "(r - 1) mod 20 < 20" by simp
qed

lemma neg_div_20: "- ((- L) div 20) = (L - 1) div 20 + (1::int)"
proof -
  obtain q m where q: "q = (L - 1) div 20" and eq: "L - 1 = 20 * q + m" and m: "0 \<le> m" "m < 20"
    by (rule div_mod_20)
  have "(- L) div 20 = - (q + 1)"
  proof (rule int_div_pos_eq [where r = "19 - m"])
    show "- L = 20 * - (q + 1) + (19 - m)" using eq by (simp add: algebra_simps)
    show "0 \<le> 19 - m" using m by linarith
    show "19 - m < 20" using m by linarith
  qed
  with q show ?thesis by simp
qed

lemma ceiling_20: "\<lceil>real_of_int L / 20\<rceil> = (L - 1) div 20 + 1"
proof -
  have "\<lceil>real_of_int L / real_of_int 20\<rceil> = - (- L div 20)"
    by (rule ceiling_divide_eq_div)
  with neg_div_20 [of L] show ?thesis by simp
qed

lemma last_chunk_bounds: "1 \<le> r - 20 * ((r - 1) div 20) \<and> r - 20 * ((r - 1) div 20) \<le> (20::int)"
proof -
  obtain q m where q: "q = (r - 1) div 20" and eq: "r - 1 = 20 * q + m" and m: "0 \<le> m" "m < 20"
    by (rule div_mod_20)
  from eq m have "1 \<le> r - 20 * q \<and> r - 20 * q \<le> 20" by linarith
  with q show ?thesis by simp
qed

lemma chunk_plan_closed:
  "0 < r \<Longrightarrow> chunk_plan r = replicate (nat ((r - 1) div 20)) 20 @ [r - 20 * ((r - 1) div 20)]"
proof (induction r rule: chunk_plan.induct)
  case (1 r)
  show ?case
  proof (cases "r \<le> 20")
    case True
    with "1.prems" have "(r - 1) div 20 = 0" by simp
    with True "1.prems" show ?thesis
      by (simp add: chunk_plan.simps [of r] chunk_plan.simps [of 0])
  next
    case False
    then have r: "20 < r" by simp
    then have m: "min 20 r = 20" by simp
    have "(r - 1) div 20 = ((r - 20 - 1) + 20) div 20" by simp
    also have "\<dots> = (r - 20 - 1) div 20 + 1" by (rule div_add_self2) simp
    finally have d: "(r - 1) div 20 = (r - 20 - 1) div 20 + 1" .
    have nn: "0 \<le> (r - 20 - 1) div 20" using r by simp
    from "1.IH" r m have
      "chunk_plan (r - 20) = replicate (nat ((r - 20 - 1) div 20)) 20 @ [r - 20 - 20 * ((r - 20 - 1) div 20)]"
      by simp
    moreover have "chunk_plan r = 20 # chunk_plan (r - 20)"
      using r by (simp add: chunk_plan.simps [of r])
    moreover have "nat ((r - 1) div 20) = Suc (nat ((r - 20 - 1) div 20))"
      using d nn by simp
    moreover have "r - 20 - 20 * ((r - 20 - 1) div 20) = r - 20 * ((r - 1) div 20)"
      using d by simp
    ultimately show ?thesis
      by simp
  qed
qed

text \<open>The plan of a positive length, with the number of chunks as the spec writes it.\<close>

lemma chunk_plan_ceiling:
  assumes "0 < L"
  defines "n \<equiv> nat \<lceil>real_of_int L / 20\<rceil>"
  shows "chunk_plan L = replicate (n - 1) 20 @ [L - 20 * int (n - 1)]"
    and "length (chunk_plan L) = n"
    and "sum_list (chunk_plan L) = L"
    and "\<forall>c \<in> set (chunk_plan L). 1 \<le> c \<and> c \<le> 20"
proof -
  have nn: "0 \<le> (L - 1) div 20" using assms by simp
  then have n1: "n - 1 = nat ((L - 1) div 20)" and n: "n = Suc (nat ((L - 1) div 20))"
    by (simp_all add: n_def ceiling_20 nat_add_distrib)
  from nn n1 have i: "int (n - 1) = (L - 1) div 20" by simp
  from chunk_plan_closed [OF assms(1)] n1 i
  show eq: "chunk_plan L = replicate (n - 1) 20 @ [L - 20 * int (n - 1)]" by simp
  then show "length (chunk_plan L) = n" using n n1 by simp
  from eq show "sum_list (chunk_plan L) = L" by (simp add: sum_list_replicate)
  from eq i last_chunk_bounds [of L] show "\<forall>c \<in> set (chunk_plan L). 1 \<le> c \<and> c \<le> 20"
    by auto
qed

lemma chunk_loop_bounded_enough:
  "(remaining_path_length s - 1) div 20 + 1 \<le> int k \<Longrightarrow>
     chunk_loop_bounded k st lg e tr s = Some (chunk_loop st lg e tr s)"
proof (induction k arbitrary: tr s)
  case 0
  obtain q m where q: "q = (remaining_path_length s - 1) div 20"
    and eq: "remaining_path_length s - 1 = 20 * q + m" and m: "0 \<le> m" "m < 20"
    by (rule div_mod_20)
  from "0.prems" q have "q + 1 \<le> 0" by simp
  with eq m have "\<not> 0 < remaining_path_length s" by linarith
  then show ?case
    by (simp add: chunk_loop.simps [of st lg e tr s])
next
  case (Suc k)
  show ?case
  proof (cases "0 < remaining_path_length s")
    case False
    then show ?thesis by (simp add: chunk_loop.simps [of st lg e tr s])
  next
    case True
    obtain tr1 fl1 where b: "loop_body st lg e tr s = (tr1, fl1)"
      by (cases "loop_body st lg e tr s")
    show ?thesis
    proof (cases fl1)
      case (Normal s1)
      with b have dec: "remaining_path_length s1 =
          remaining_path_length s - min 20 (remaining_path_length s)"
        by (simp add: loop_body_decreases)
      have "(remaining_path_length s1 - 1) div 20 + 1 \<le> int k"
      proof (cases "remaining_path_length s \<le> 20")
        case True
        with dec have "remaining_path_length s1 = 0" by simp
        then show ?thesis by simp
      next
        case False
        with dec have r1: "remaining_path_length s = remaining_path_length s1 + 20" by simp
        have "(remaining_path_length s1 + 20 - 1) div 20 = ((remaining_path_length s1 - 1) + 20) div 20"
          by simp
        also have "\<dots> = (remaining_path_length s1 - 1) div 20 + 1"
          by (rule div_add_self2) simp
        finally have "(remaining_path_length s - 1) div 20 = (remaining_path_length s1 - 1) div 20 + 1"
          using r1 by simp
        with Suc.prems show ?thesis by simp
      qed
      from Suc.IH [OF this] have "chunk_loop_bounded k st lg e tr1 s1 = Some (chunk_loop st lg e tr1 s1)" .
      with True b Normal show ?thesis
        by (simp add: chunk_loop.simps [of st lg e tr s])
    next
      case (Return bd c)
      with True b show ?thesis by (simp add: chunk_loop.simps [of st lg e tr s])
    next
      case (Raise m)
      with True b show ?thesis by (simp add: chunk_loop.simps [of st lg e tr s])
    qed
  qed
qed

subsection \<open>The handler on the stores above\<close>

lemmas text_simps = render.simps str_int_def str_nat.simps digit_char_def

lemmas run_simps = run_graph_query.simps try_block_def resolve_path_length_eq
  chunk_loop.simps loop_body_def intermediate_end_node_def execute_sql_def fetch_edges_eq
  log_and_return_eq except_block_eq row_get_def append_rows_eq chain_rows_wide
  queries_issued_def Let_def quiet_def

lemma store47_answers:
  "store47 n (render (Path_length_query 1 48)) = Inr [[47]]"
  "store47 n (render (End_node_query 1 20)) = Inr [[20, 21]]"
  "store47 n (render (Gql_query_chunk 1 21 20)) = Inr (chain_rows 1 20)"
  "store47 n (render (End_node_query 21 20)) = Inr [[20, 41]]"
  "store47 n (render (Gql_query_chunk 21 41 20)) = Inr (chain_rows 21 20)"
  "store47 n (render (Gql_query_chunk 41 48 7)) = Inr (chain_rows 41 7)"
  by (simp_all add: store47_def table_store_def text_simps)

lemma run47:
  "run_graph_query store47 quiet (Integer 1) (Integer 48) =
     ([Executed (Path_length_query 1 48) (Inr [[47]]),
       Executed (End_node_query 1 20) (Inr [[20, 21]]),
       Executed (Gql_query_chunk 1 21 20) (Inr (chain_rows 1 20)),
       Executed (End_node_query 21 20) (Inr [[20, 41]]),
       Executed (Gql_query_chunk 21 41 20) (Inr (chain_rows 21 20)),
       Executed (Gql_query_chunk 41 48 7) (Inr (chain_rows 41 7)),
       Logged (Log_struct
                \<lparr>message = success_message 1 48,
                   query = render (Gql_query_chunk 1 21 20) @ render (Gql_query_chunk 21 41 20)
                     @ render (Gql_query_chunk 41 48 7),
                   result_count = 47,
                   results = map output_of_row (chain_rows 1 20 @ chain_rows 21 20 @ chain_rows 41 7)\<rparr>
                INFO) None],
      Response (Outputs_body (map output_of_row (chain_rows 1 20 @ chain_rows 21 20 @ chain_rows 41 7))) 200)"
  by (simp add: run_simps store47_answers)

lemma store_gap_answers:
  "store_gap n (render (Path_length_query 1 48)) = Inr [[47]]"
  "store_gap n (render (End_node_query 1 20)) = Inr [[20, 21]]"
  "store_gap n (render (Gql_query_chunk 1 21 20)) = Inr (chain_rows 1 20)"
  "store_gap n (render (End_node_query 21 20)) = Inr []"
  by (simp_all add: store_gap_def table_store_def text_simps)

lemma run_gap:
  "run_graph_query store_gap quiet (Integer 1) (Integer 48) =
     ([Executed (Path_length_query 1 48) (Inr [[47]]),
       Executed (End_node_query 1 20) (Inr [[20, 21]]),
       Executed (Gql_query_chunk 1 21 20) (Inr (chain_rows 1 20))]
      @ Executed (End_node_query 21 20) (Inr [])
      # [Logged (Log_text (no_boundary_message 21 20) ERROR) None],
      Response (Error_body (no_boundary_message 21 20)) 500)"
  by (simp add: run_simps store_gap_answers log_call_def)

lemma store_torn_answers:
  "store_torn n (render (Path_length_query 1 22)) = Inr [[21]]"
  "store_torn n (render (End_node_query 1 20)) = Inr [[20, 21]]"
  "store_torn n (render (Gql_query_chunk 1 21 20)) = Inr (chain_rows 1 20)"
  "store_torn n (render (Gql_query_chunk 21 22 1)) = Inr [[99, 1099, 22]]"
  by (simp_all add: store_torn_def table_store_def text_simps)

lemma run_torn:
  "run_graph_query store_torn quiet (Integer 1) (Integer 22) =
     ([Executed (Path_length_query 1 22) (Inr [[21]]),
       Executed (End_node_query 1 20) (Inr [[20, 21]]),
       Executed (Gql_query_chunk 1 21 20) (Inr (chain_rows 1 20)),
       Executed (Gql_query_chunk 21 22 1) (Inr [[99, 1099, 22]]),
       Logged (Log_struct
                \<lparr>message = success_message 1 22,
                   query = render (Gql_query_chunk 1 21 20) @ render (Gql_query_chunk 21 22 1),
                   result_count = 21,
                   results = map output_of_row (chain_rows 1 20 @ [[99, 1099, 22]])\<rparr>
                INFO) None],
      Response (Outputs_body (map output_of_row (chain_rows 1 20 @ [[99, 1099, 22]]))) 200)"
  by (simp add: run_simps store_torn_answers)

lemma store_fork_answers:
  "store_fork n (render (Path_length_query 1 22)) = Inr [[21]]"
  "store_fork n (render (Path_length_query 1 23)) = Inr [[22]]"
  "store_fork n (render (End_node_query 1 20)) = Inr [[20, 99], [20, 21]]"
  "store_fork n (render (Gql_query_chunk 1 99 20)) = Inr (chain_rows 1 19 @ [[20, 2020, 99]])"
  "store_fork n (render (Gql_query_chunk 99 22 1)) = Inr []"
  "store_fork n (render (Gql_query_chunk 99 23 2)) = Inr []"
  "store_fork n (render (Gql_query_chunk 1 21 20)) = Inr (chain_rows 1 20)"
  "store_fork n (render (Gql_query_chunk 21 22 1)) = Inr (chain_rows 21 1)"
  by (simp_all add: store_fork_def table_store_def text_simps)

lemma run_fork_22:
  "run_graph_query store_fork quiet (Integer 1) (Integer 22) =
     ([Executed (Path_length_query 1 22) (Inr [[21]]),
       Executed (End_node_query 1 20) (Inr [[20, 99], [20, 21]]),
       Executed (Gql_query_chunk 1 99 20) (Inr (chain_rows 1 19 @ [[20, 2020, 99]])),
       Executed (Gql_query_chunk 99 22 1) (Inr []),
       Logged (Log_struct
                \<lparr>message = success_message 1 22,
                   query = render (Gql_query_chunk 1 99 20) @ render (Gql_query_chunk 99 22 1),
                   result_count = 20,
                   results = map output_of_row (chain_rows 1 19 @ [[20, 2020, 99]])\<rparr>
                INFO) None],
      Response (Outputs_body (map output_of_row (chain_rows 1 19 @ [[20, 2020, 99]]))) 200)"
  by (simp add: run_simps store_fork_answers)

lemma run_fork_23:
  "run_graph_query store_fork quiet (Integer 1) (Integer 23) =
     ([Executed (Path_length_query 1 23) (Inr [[22]]),
       Executed (End_node_query 1 20) (Inr [[20, 99], [20, 21]]),
       Executed (Gql_query_chunk 1 99 20) (Inr (chain_rows 1 19 @ [[20, 2020, 99]])),
       Executed (Gql_query_chunk 99 23 2) (Inr []),
       Logged (Log_struct
                \<lparr>message = success_message 1 23,
                   query = render (Gql_query_chunk 1 99 20) @ render (Gql_query_chunk 99 23 2),
                   result_count = 20,
                   results = map output_of_row (chain_rows 1 19 @ [[20, 2020, 99]])\<rparr>
                INFO) None],
      Response (Outputs_body (map output_of_row (chain_rows 1 19 @ [[20, 2020, 99]]))) 200)"
  by (simp add: run_simps store_fork_answers)

lemma store3_answers:
  "store3 n (render (Path_length_query 1 4)) = Inr [[3]]"
  "store3 n (render (Gql_query 1 4 3)) = Inr (chain_rows 1 3)"
  by (simp_all add: store3_def table_store_def text_simps)

lemma run3_quiet:
  "run_graph_query store3 quiet (Integer 1) (Integer 4) =
     ([Executed (Path_length_query 1 4) (Inr [[3]]),
       Executed (Gql_query 1 4 3) (Inr (chain_rows 1 3)),
       Logged (Log_struct \<lparr>message = success_message 1 4, query = render (Gql_query 1 4 3),
                             result_count = 3, results = map output_of_row (chain_rows 1 3)\<rparr> INFO)
         None],
      Response (Outputs_body (map output_of_row (chain_rows 1 3))) 200)"
  by (simp add: run_simps store3_answers)

lemma run3_down:
  "run_graph_query store3 struct_down (Integer 1) (Integer 4) =
     ([Executed (Path_length_query 1 4) (Inr [[3]]),
       Executed (Gql_query 1 4 3) (Inr (chain_rows 1 3)),
       Logged (Log_struct \<lparr>message = success_message 1 4, query = render (Gql_query 1 4 3),
                             result_count = 3, results = map output_of_row (chain_rows 1 3)\<rparr> INFO)
         (Some ''logging unavailable''),
       Logged (Log_text ''An error occurred: logging unavailable'' ERROR) None],
      Response (Error_body ''An error occurred: logging unavailable'') 500)"
  by (simp add: run_simps store3_answers struct_down_def error_occurred_def)

lemma store_basic_answers:
  "store_basic n (render (Gql_query_basic 1 4)) = Inr (chain_rows 1 3)"
  by (simp add: store_basic_def table_store_def text_simps)

lemma run_basic_quiet:
  "run_graph_query_basic store_basic quiet (Integer 1) (Integer 4) =
     ([Executed (Gql_query_basic 1 4) (Inr (chain_rows 1 3)),
       Logged (Log_struct \<lparr>message = success_message 1 4, query = render (Gql_query_basic 1 4),
                             result_count = 3, results = map output_of_row (chain_rows 1 3)\<rparr> INFO)
         None],
      Response (Outputs_body (map output_of_row (chain_rows 1 3))) 200)"
  by (simp add: try_block_basic_def run_simps store_basic_answers)

lemma run_basic_down:
  "run_graph_query_basic store_basic struct_down (Integer 1) (Integer 4) =
     ([Executed (Gql_query_basic 1 4) (Inr (chain_rows 1 3)),
       Logged (Log_struct \<lparr>message = success_message 1 4, query = render (Gql_query_basic 1 4),
                             result_count = 3, results = map output_of_row (chain_rows 1 3)\<rparr> INFO)
         (Some ''logging unavailable''),
       Logged (Log_text ''An error occurred: logging unavailable'' ERROR) None],
      Response (Error_body ''An error occurred: logging unavailable'') 500)"
  by (simp add: try_block_basic_def run_simps store_basic_answers struct_down_def error_occurred_def)

section \<open>The claims\<close>

subsection \<open>C1: the chunks of a long path\<close>

text \<open>
  Claim C1.  Take a request whose length query resolves a length \<open>L\<close> above 20 and that
  ends with the list of edges.  The segment queries that its chunking loop has issued are
  \<open>\<lceil>L / 20\<rceil>\<close> in number; each has the hop bound 20 but the last, whose bound is
  \<open>L - 20 * (\<lceil>L / 20\<rceil> - 1)\<close>; the bounds add up to \<open>L\<close>, and each of them lies between 1
  and 20, so that there is no empty last chunk.
\<close>

theorem chunking_produces_ceiling_segments:
  assumes run: "run_graph_query st lg (Integer start_node_id) (Integer end_node_id) =
                  (tr, Response (Outputs_body outs) 200)"
    and len: "snd (resolve_path_length st [] start_node_id end_node_id) = Inr L"
    and big: "20 < L"
  shows "let sizes = chunk_sizes (queries tr); n = nat \<lceil>real_of_int L / 20\<rceil> in
           length sizes = n
         \<and> sizes = replicate (n - 1) 20 @ [L - 20 * int (n - 1)]
         \<and> sum_list sizes = L
         \<and> (\<forall>c \<in> set sizes. 1 \<le> c \<and> c \<le> 20)"
proof -
  let ?tr0 = "fst (resolve_path_length st [] start_node_id end_node_id)"
  let ?s0 = "\<lparr>remaining_path_length = L, current_start_node = start_node_id,
              outputs = [], gql_query = []\<rparr>"
  obtain tr2 fl where loop: "chunk_loop st lg end_node_id ?tr0 ?s0 = (tr2, fl)"
    by (cases "chunk_loop st lg end_node_id ?tr0 ?s0")
  have tr0: "chunk_sizes (queries ?tr0) = []"
    by (simp add: resolve_path_length_eq)
  from run have te: "try_except lg (try_block st lg start_node_id end_node_id)
      = (tr, Response (Outputs_body outs) 200)" by simp
  have "chunk_sizes (queries tr) = chunk_plan L"
  proof (cases fl)
    case (Normal s')
    with loop chunk_loop_sizes [of st lg end_node_id ?tr0 ?s0 tr2 s'] tr0
    have "chunk_sizes (queries tr2) = chunk_plan L" by simp
    moreover from te Normal loop
    have "try_except lg (log_and_return lg tr2 start_node_id end_node_id (outputs s') (gql_query s'))
        = (tr, Response (Outputs_body outs) 200)"
      by (simp add: try_block_long [OF len big])
    from finish_trace [OF this] have "chunk_sizes (queries tr) = chunk_sizes (queries tr2)"
      by (auto simp: queries_append)
    ultimately show ?thesis by simp
  next
    case (Return bd c)
    with loop chunk_loop_returns_error [of st lg end_node_id ?tr0 ?s0 tr2 bd c]
    have "c = 500" by simp
    with te Return loop show ?thesis
      by (simp add: try_block_long [OF len big])
  next
    case (Raise m)
    with te loop show ?thesis
      by (cases "lg (Log_text (error_occurred m) ERROR)")
         (simp_all add: try_block_long [OF len big] except_block_eq)
  qed
  moreover from big have "0 < L" by simp
  note chunk_plan_ceiling [OF this]
  ultimately show ?thesis
    by (simp only: Let_def)
qed

text \<open>The scenario of the spec, 47 hops from node 1 to node 48: chunks of 20, 20 and 7.\<close>

theorem chunking_produces_ceiling_segments_witness:
  "run_graph_query store47 quiet (Integer 1) (Integer 48)
     = (fst (run_graph_query store47 quiet (Integer 1) (Integer 48)),
        Response (Outputs_body (map output_of_row (chain_rows 1 20 @ chain_rows 21 20 @ chain_rows 41 7))) 200)
   \<and> snd (resolve_path_length store47 [] 1 48) = Inr 47
   \<and> chunk_sizes (queries (fst (run_graph_query store47 quiet (Integer 1) (Integer 48)))) = [20, 20, 7]"
proof -
  have len: "snd (resolve_path_length store47 [] 1 48) = Inr 47"
    by (simp add: resolve_path_length_eq store47_answers row_get_def)
  from chunking_produces_ceiling_segments [OF run47 len] run47 len show ?thesis
    by (simp add: Let_def)
qed

subsection \<open>C2: a path within the hop cap\<close>

text \<open>
  Claim C2.  Take a pair whose length query resolves a length \<open>L\<close> with \<open>0 < L \<le> 20\<close>, a
  store that answers the path query for the hop range \<open>1..L\<close> with a path of \<open>L\<close> edges, and a
  logging sink that takes the record.  The request issues the length query and then exactly
  one path query, with the hop bound \<open>L\<close>, and answers 200 with the \<open>L\<close> edges of the store,
  in their order: a contiguous list.
\<close>

theorem short_path_single_query:
  assumes len: "snd (resolve_path_length st [] a b) = Inr L"
    and pos: "0 < L" and small: "L \<le> 20"
    and ans: "st 1 (render (Gql_query a b L)) = Inr rows"
    and path: "length rows = nat L" "list_all (\<lambda>r. 3 \<le> length r) rows"
      "contiguous (map output_of_row rows)"
    and log: "lg (Log_struct \<lparr>message = success_message a b, query = render (Gql_query a b L),
                               result_count = length rows, results = map output_of_row rows\<rparr> INFO) = None"
  shows "run_graph_query st lg (Integer a) (Integer b) =
           ([Executed (Path_length_query a b) (st 0 (render (Path_length_query a b))),
             Executed (Gql_query a b L) (Inr rows),
             Logged (Log_struct \<lparr>message = success_message a b, query = render (Gql_query a b L),
                                   result_count = length rows, results = map output_of_row rows\<rparr> INFO)
               None],
            Response (Outputs_body (map output_of_row rows)) 200)
       \<and> int (length (map output_of_row rows)) = L
       \<and> contiguous (map output_of_row rows)"
  using assms
  by (simp add: try_block_short fetch_edges_eq fst_resolve_path_length queries_issued_def
        append_rows_eq log_and_return_eq)

text \<open>A path of three edges from node 1 to node 4.\<close>

theorem short_path_single_query_witness:
  "snd (resolve_path_length store3 [] 1 4) = Inr 3
   \<and> store3 1 (render (Gql_query 1 4 3)) = Inr (chain_rows 1 3)
   \<and> contiguous (map output_of_row (chain_rows 1 3))
   \<and> queries (fst (run_graph_query store3 quiet (Integer 1) (Integer 4)))
       = [Path_length_query 1 4, Gql_query 1 4 3]
   \<and> snd (run_graph_query store3 quiet (Integer 1) (Integer 4))
       = Response (Outputs_body (map output_of_row (chain_rows 1 3))) 200"
proof -
  have a2: "store3 1 (render (Gql_query 1 4 3)) = Inr (chain_rows 1 3)"
    by (rule store3_answers)
  have len: "snd (resolve_path_length store3 [] 1 4) = Inr 3"
    by (simp add: resolve_path_length_eq store3_answers row_get_def)
  have c: "contiguous (map output_of_row (chain_rows 1 3))"
    by (simp add: chain_rows_def output_of_row_def upt_rec)
  have q: "quiet (Log_struct \<lparr>message = success_message 1 4, query = render (Gql_query 1 4 3),
              result_count = length (chain_rows 1 3),
              results = map output_of_row (chain_rows 1 3)\<rparr> INFO) = None"
    by (simp add: quiet_def)
  have "run_graph_query store3 quiet (Integer 1) (Integer 4) =
           ([Executed (Path_length_query 1 4) (store3 0 (render (Path_length_query 1 4))),
             Executed (Gql_query 1 4 3) (Inr (chain_rows 1 3)),
             Logged (Log_struct \<lparr>message = success_message 1 4, query = render (Gql_query 1 4 3),
                                   result_count = length (chain_rows 1 3),
                                   results = map output_of_row (chain_rows 1 3)\<rparr> INFO)
               None],
            Response (Outputs_body (map output_of_row (chain_rows 1 3))) 200)"
    using short_path_single_query [of store3 1 4 3 "chain_rows 1 3" quiet, OF len _ _ a2 _ chain_rows_wide c q]
    by simp
  then have "queries (fst (run_graph_query store3 quiet (Integer 1) (Integer 4)))
       = [Path_length_query 1 4, Gql_query 1 4 3]"
    and "snd (run_graph_query store3 quiet (Integer 1) (Integer 4))
       = Response (Outputs_body (map output_of_row (chain_rows 1 3))) 200"
    by (simp_all only: fst_conv snd_conv queries.simps)
  with len a2 c show ?thesis by simp
qed

subsection \<open>C3: segments that do not meet\<close>

text \<open>
  Claim C3, as stated, fails.  A store answers the second segment query with an edge that
  starts at node 99, while the first segment ends at node 21.  Nothing in the assembly
  compares the two: the request answers 200 with both segments, a list that is not
  contiguous.
\<close>

theorem contiguity_is_not_verified_counterexample:
  "segment_answers (fst (run_graph_query store_torn quiet (Integer 1) (Integer 22)))
     = [chain_rows 1 20, [[99, 1099, 22]]]
   \<and> ENDNODEID (output_of_row (last (chain_rows 1 20))) = 21
   \<and> STARTNODEID (output_of_row (hd [[99, 1099, 22]])) = 99
   \<and> \<not> contiguous (map output_of_row (chain_rows 1 20 @ [[99, 1099, 22]]))
   \<and> snd (run_graph_query store_torn quiet (Integer 1) (Integer 22))
       = Response (Outputs_body (map output_of_row (chain_rows 1 20 @ [[99, 1099, 22]]))) 200"
proof -
  have "segment_answers (fst (run_graph_query store_torn quiet (Integer 1) (Integer 22)))
     = [chain_rows 1 20, [[99, 1099, 22]]]"
    by (simp only: run_torn fst_conv segment_answers.simps)
  moreover have "snd (run_graph_query store_torn quiet (Integer 1) (Integer 22))
       = Response (Outputs_body (map output_of_row (chain_rows 1 20 @ [[99, 1099, 22]]))) 200"
    by (simp only: run_torn snd_conv)
  moreover have "ENDNODEID (output_of_row (last (chain_rows 1 20))) = 21"
    by (simp add: chain_rows_def output_of_row_def upt_rec)
  moreover have "STARTNODEID (output_of_row (hd [[99, 1099, 22]])) = 99"
    by (simp add: output_of_row_def)
  moreover have "\<not> contiguous (map output_of_row (chain_rows 1 20 @ [[99, 1099, 22]]))"
    by (simp add: chain_rows_def output_of_row_def upt_rec)
  ultimately show ?thesis by (intro conjI)
qed

text \<open>
  Claim C3, amended.  The assembly step appends the rows of each segment to \<open>outputs\<close> in
  the order of the segments and compares no end node with any start node.  In every request
  that enters the loop, has each of its queries answered and each of its logging calls
  returned, the response is 200 with the concatenation of the segment answers, contiguous or
  not.
\<close>

theorem segments_are_concatenated_unchecked:
  assumes run: "run_graph_query st lg (Integer a) (Integer b) = (tr, out)"
    and len: "snd (resolve_path_length st [] a b) = Inr L" and big: "20 < L"
    and ok: "list_all answered tr"
  shows "out = Response (Outputs_body (concat (map (map output_of_row) (segment_answers tr)))) 200"
proof -
  let ?tr0 = "fst (resolve_path_length st [] a b)"
  from run len big obtain ext fl where
    loop: "chunk_loop st lg b ?tr0
       \<lparr>remaining_path_length = L, current_start_node = a, outputs = [], gql_query = []\<rparr>
       = (?tr0 @ ext, fl)"
    and fin: "try_except lg
       (case fl of
          Raise m \<Rightarrow> (?tr0 @ ext, Inl m)
        | Return bd c \<Rightarrow> (?tr0 @ ext, Inr (bd, c))
        | Normal s \<Rightarrow> log_and_return lg (?tr0 @ ext) a b (outputs s) (gql_query s))
     = (tr, out)"
    by (rule run_long_shape)
  from finish_shape [OF fin] obtain ls where
    tr: "tr = (?tr0 @ ext) @ ls" and ls: "\<forall>ev \<in> set ls. \<exists>c r. ev = Logged c r" by blast
  from chunk_loop_answered [OF loop] obtain ext' where
    "?tr0 @ ext = ?tr0 @ ext'" and
    q: "list_all answered ext' \<Longrightarrow>
        \<exists>s'. fl = Normal s' \<and>
           outputs s' = [] @ concat (map (map output_of_row) (segment_answers ext'))"
    by auto
  then have "ext' = ext" by simp
  moreover from ok tr have "list_all answered ext" and lsok: "list_all answered ls" by simp_all
  ultimately obtain s' where fl: "fl = Normal s'"
    and outs: "outputs s' = concat (map (map output_of_row) (segment_answers ext))"
    using q by auto
  have sa: "segment_answers tr = segment_answers ext"
    using tr ls by (simp add: segment_answers_append segment_answers_of_logs fst_resolve_path_length)
  let ?rec = "Log_struct \<lparr>message = success_message a b, query = gql_query s',
                result_count = length (outputs s'), results = outputs s'\<rparr> INFO"
  have "lg ?rec = None"
  proof (cases "lg ?rec")
    case None
    then show ?thesis .
  next
    case (Some m)
    with fin fl have "Logged ?rec (Some m) \<in> set tr"
      by (auto simp: log_and_return_eq except_block_eq)
    with ok have "answered (Logged ?rec (Some m))" by (auto simp: list_all_iff)
    then show ?thesis by simp
  qed
  with fin fl have "out = Response (Outputs_body (outputs s')) 200"
    by (auto simp: log_and_return_eq)
  with outs sa show ?thesis by simp
qed

text \<open>The request above, whose segments do not meet, is such a request.\<close>

theorem segments_are_concatenated_unchecked_witness:
  "snd (resolve_path_length store_torn [] 1 22) = Inr 21
   \<and> list_all answered (fst (run_graph_query store_torn quiet (Integer 1) (Integer 22)))
   \<and> snd (run_graph_query store_torn quiet (Integer 1) (Integer 22))
       = Response (Outputs_body (concat (map (map output_of_row)
           (segment_answers (fst (run_graph_query store_torn quiet (Integer 1) (Integer 22))))))) 200"
proof -
  have len: "snd (resolve_path_length store_torn [] 1 22) = Inr 21"
    by (simp add: resolve_path_length_eq store_torn_answers row_get_def)
  have ok: "list_all answered (fst (run_graph_query store_torn quiet (Integer 1) (Integer 22)))"
    unfolding run_torn by (simp add: chain_rows_wide)
  have "run_graph_query store_torn quiet (Integer 1) (Integer 22)
      = (fst (run_graph_query store_torn quiet (Integer 1) (Integer 22)),
         snd (run_graph_query store_torn quiet (Integer 1) (Integer 22)))"
    by (simp only: prod.collapse)
  from segments_are_concatenated_unchecked [OF this len _ ok] len ok show ?thesis
    by simp
qed

subsection \<open>C4: no path\<close>

text \<open>
  Claim C4.  When the length query resolves the length 0 (no row, or a first row that holds
  0) and the logging sink takes the warning, the request issues no other query and answers
  200 with the message of the missing path and \<open>path_length\<close> 0: it is not answered as an
  error.
\<close>

theorem no_path_is_a_success:
  assumes "snd (resolve_path_length st [] a b) = Inr 0"
    and "lg (Log_text no_path_message WARNING) = None"
  shows "run_graph_query st lg (Integer a) (Integer b) =
           ([Executed (Path_length_query a b) (st 0 (render (Path_length_query a b))),
             Logged (Log_text no_path_message WARNING) None],
            Response (Message_body no_path_message 0) 200)"
  using assms by (simp add: try_block_none fst_resolve_path_length)

text \<open>The pair (1, 1) of the spec, for which the store has no row.\<close>

theorem no_path_is_a_success_witness:
  "snd (resolve_path_length store47 [] 1 1) = Inr 0
   \<and> quiet (Log_text no_path_message WARNING) = None
   \<and> run_graph_query store47 quiet (Integer 1) (Integer 1) =
           ([Executed (Path_length_query 1 1) (Inr []),
             Logged (Log_text no_path_message WARNING) None],
            Response (Message_body no_path_message 0) 200)"
proof -
  have a: "store47 n (render (Path_length_query 1 1)) = Inr []" for n
    by (simp add: store47_def table_store_def text_simps)
  then have len: "snd (resolve_path_length store47 [] 1 1) = Inr 0"
    by (simp add: resolve_path_length_eq)
  have q: "quiet (Log_text no_path_message WARNING) = None" by (simp add: quiet_def)
  from no_path_is_a_success [of store47 1 1 quiet, OF len q] len q a show ?thesis by simp
qed

subsection \<open>C5: no boundary node\<close>

text \<open>
  Claim C5.  Take any request and any boundary query in its trace that was answered with no
  row.  No query is issued after it, and the request ends with an error: the response 500
  with the message that names the start node and the distance when the logging sink takes
  that message, and otherwise the response 500 of the handler of the \<open>try\<close> statement or an
  exception that leaves the function.
\<close>

theorem boundary_absent_aborts:
  assumes run: "run_graph_query st lg (Integer a) (Integer b) = (tr, out)"
    and absent: "tr = pre @ Executed (End_node_query n c) (Inr []) # post"
  shows "queries post = []
       \<and> ((\<exists>m. out = Response (Error_body m) 500) \<or> (\<exists>m. out = Unhandled m))
       \<and> (lg (Log_text (no_boundary_message n c) ERROR) = None \<longrightarrow>
            out = Response (Error_body (no_boundary_message n c)) 500)"
proof (cases rule: resolved_cases [of st a b])
  case (failed m)
  then have "Executed (End_node_query n c) (Inr []) \<notin> set tr"
    by (intro no_boundary_query_outside_loop [OF run]) simp
  with absent show ?thesis by simp
next
  case none
  then have "Executed (End_node_query n c) (Inr []) \<notin> set tr"
    by (intro no_boundary_query_outside_loop [OF run]) simp
  with absent show ?thesis by simp
next
  case (short L)
  then have "Executed (End_node_query n c) (Inr []) \<notin> set tr"
    by (intro no_boundary_query_outside_loop [OF run]) simp
  with absent show ?thesis by simp
next
  case (long L)
  let ?tr0 = "fst (resolve_path_length st [] a b)"
  let ?A = "Executed (End_node_query n c) (Inr [])"
  let ?log = "Log_text (no_boundary_message n c) ERROR"
  from run long obtain ext fl where
    loop: "chunk_loop st lg b ?tr0
       \<lparr>remaining_path_length = L, current_start_node = a, outputs = [], gql_query = []\<rparr>
       = (?tr0 @ ext, fl)"
    and fin: "try_except lg
       (case fl of
          Raise m \<Rightarrow> (?tr0 @ ext, Inl m)
        | Return bd c \<Rightarrow> (?tr0 @ ext, Inr (bd, c))
        | Normal s \<Rightarrow> log_and_return lg (?tr0 @ ext) a b (outputs s) (gql_query s))
     = (tr, out)"
    by (rule run_long_shape)
  from finish_shape [OF fin] obtain ls where
    tr: "tr = (?tr0 @ ext) @ ls" and ls: "\<forall>ev \<in> set ls. \<exists>c r. ev = Logged c r" by blast
  from tr absent have "?tr0 @ (ext @ ls) = pre @ ?A # post" by simp
  moreover have "?A \<notin> set ?tr0" by (simp add: fst_resolve_path_length)
  ultimately have "\<exists>pre'. pre = ?tr0 @ pre' \<and> ext @ ls = pre' @ ?A # post"
    by (rule split_after)
  then obtain pre' where "ext @ ls = pre' @ ?A # post" by blast
  moreover from ls have "?A \<notin> set ls" by auto
  ultimately have "\<exists>post'. ext = pre' @ ?A # post' \<and> post = post' @ ls"
    by (rule split_before)
  then obtain post' where ext: "ext = pre' @ ?A # post'" and post: "post = post' @ ls"
    by blast
  from chunk_loop_absent [OF loop] obtain ext' where
    "?tr0 @ ext = ?tr0 @ ext'" and
    q: "\<And>pre n c post. ext' = pre @ Executed (End_node_query n c) (Inr []) # post \<Longrightarrow>
        post = [Logged (Log_text (no_boundary_message n c) ERROR)
                  (lg (Log_text (no_boundary_message n c) ERROR))]
      \<and> fl = (case lg (Log_text (no_boundary_message n c) ERROR) of
                 Some m \<Rightarrow> Raise m
               | None \<Rightarrow> Return (Error_body (no_boundary_message n c)) 500)"
    by blast
  then have "ext' = pre' @ ?A # post'" using ext by simp
  from q [OF this] have
    post': "post' = [Logged ?log (lg ?log)]" and
    fl: "fl = (case lg ?log of Some m \<Rightarrow> Raise m
               | None \<Rightarrow> Return (Error_body (no_boundary_message n c)) 500)"
    by simp_all
  from post post' ls have "queries post = []"
    by (simp add: queries_append queries_of_logs)
  moreover have "((\<exists>m. out = Response (Error_body m) 500) \<or> (\<exists>m. out = Unhandled m))
       \<and> (lg ?log = None \<longrightarrow> out = Response (Error_body (no_boundary_message n c)) 500)"
  proof (cases "lg ?log")
    case None
    with fl fin show ?thesis by auto
  next
    case (Some m)
    with fl fin show ?thesis
      by (cases "lg (Log_text (error_occurred m) ERROR)") (auto simp: except_block_eq)
  qed
  ultimately show ?thesis by simp
qed

text \<open>The first chunk is fetched, the boundary query from node 21 has no row: the third
  and the last segment queries are never issued.\<close>

theorem boundary_absent_aborts_witness:
  "queries [Logged (Log_text (no_boundary_message 21 20) ERROR) None] = []
   \<and> quiet (Log_text (no_boundary_message 21 20) ERROR) = None
   \<and> snd (run_graph_query store_gap quiet (Integer 1) (Integer 48))
       = Response (Error_body (no_boundary_message 21 20)) 500"
proof -
  have "snd (run_graph_query store_gap quiet (Integer 1) (Integer 48))
       = Response (Error_body (no_boundary_message 21 20)) 500"
    by (simp only: run_gap snd_conv)
  with boundary_absent_aborts [OF run_gap refl] show ?thesis
    by (simp add: quiet_def)
qed

subsection \<open>C6: where the boundary query looks\<close>

text \<open>
  Claim C6, as stated, fails.  The store holds the chain from node 1 to node 23 and an edge
  from node 20 to a dead end, node 99, so that the nodes 21 and 99 are both 20 hops from
  node 1.  The requests for the end nodes 22 and 23 issue the same boundary query, which
  names no end node; the store lists node 99 first, and node 99 is taken.  The request
  for node 22 then answers 200 with the 20 edges that lead to node 99, although the store
  has the segments that lead through node 21 to node 22.
\<close>

theorem boundary_query_is_not_directed_counterexample:
  "queries (fst (run_graph_query store_fork quiet (Integer 1) (Integer 22)))
     = [Path_length_query 1 22, End_node_query 1 20, Gql_query_chunk 1 99 20, Gql_query_chunk 99 22 1]
   \<and> queries (fst (run_graph_query store_fork quiet (Integer 1) (Integer 23)))
     = [Path_length_query 1 23, End_node_query 1 20, Gql_query_chunk 1 99 20, Gql_query_chunk 99 23 2]
   \<and> store_fork 2 (render (Gql_query_chunk 1 21 20)) = Inr (chain_rows 1 20)
   \<and> store_fork 3 (render (Gql_query_chunk 21 22 1)) = Inr (chain_rows 21 1)
   \<and> store_fork 3 (render (Gql_query_chunk 99 22 1)) = Inr []
   \<and> snd (run_graph_query store_fork quiet (Integer 1) (Integer 22))
       = Response (Outputs_body (map output_of_row (chain_rows 1 19 @ [[20, 2020, 99]]))) 200
   \<and> length (map output_of_row (chain_rows 1 19 @ [[20, 2020, 99]])) = 20
   \<and> ENDNODEID (last (map output_of_row (chain_rows 1 19 @ [[20, 2020, 99]]))) = 99"
proof -
  have "queries (fst (run_graph_query store_fork quiet (Integer 1) (Integer 22)))
     = [Path_length_query 1 22, End_node_query 1 20, Gql_query_chunk 1 99 20, Gql_query_chunk 99 22 1]"
    by (simp only: run_fork_22 fst_conv queries.simps)
  moreover have "queries (fst (run_graph_query store_fork quiet (Integer 1) (Integer 23)))
     = [Path_length_query 1 23, End_node_query 1 20, Gql_query_chunk 1 99 20, Gql_query_chunk 99 23 2]"
    by (simp only: run_fork_23 fst_conv queries.simps)
  moreover have "snd (run_graph_query store_fork quiet (Integer 1) (Integer 22))
       = Response (Outputs_body (map output_of_row (chain_rows 1 19 @ [[20, 2020, 99]]))) 200"
    by (simp only: run_fork_22 snd_conv)
  moreover have "length (map output_of_row (chain_rows 1 19 @ [[20, 2020, 99]])) = 20"
    by simp
  moreover have "ENDNODEID (last (map output_of_row (chain_rows 1 19 @ [[20, 2020, 99]]))) = 99"
    by (simp add: output_of_row_def)
  ultimately show ?thesis
    using store_fork_answers(5,7,8) by (intro conjI)
qed

text \<open>
  Claim C6, amended.  The boundary query of a chunk that is not the last one is built from
  the start node of the chunk and from the hop count alone, which is 20 for every such
  chunk; the end node of the request is no part of it.  The node in the second column of
  its first row, any node at exactly 20 hops, is taken as the end node of the chunk: the
  next query is the segment query from the start node of the chunk to that node.
\<close>

theorem boundary_query_ignores_destination:
  assumes run: "run_graph_query st lg (Integer a) (Integer b) = (tr, out)"
    and ev: "tr = pre @ Executed (End_node_query n c) ans # post"
  shows "c = 20
       \<and> (\<forall>r rs. ans = Inr (r # rs) \<and> 2 \<le> length r \<longrightarrow>
            (\<exists>ans' post'. post = Executed (Gql_query_chunk n (r ! 1) 20) ans' # post'))"
proof (cases rule: resolved_cases [of st a b])
  case (failed m)
  then have "Executed (End_node_query n c) ans \<notin> set tr"
    by (intro no_boundary_query_outside_loop [OF run]) simp
  with ev show ?thesis by simp
next
  case none
  then have "Executed (End_node_query n c) ans \<notin> set tr"
    by (intro no_boundary_query_outside_loop [OF run]) simp
  with ev show ?thesis by simp
next
  case (short L)
  then have "Executed (End_node_query n c) ans \<notin> set tr"
    by (intro no_boundary_query_outside_loop [OF run]) simp
  with ev show ?thesis by simp
next
  case (long L)
  let ?tr0 = "fst (resolve_path_length st [] a b)"
  let ?B = "Executed (End_node_query n c) ans"
  from run long obtain ext fl where
    loop: "chunk_loop st lg b ?tr0
       \<lparr>remaining_path_length = L, current_start_node = a, outputs = [], gql_query = []\<rparr>
       = (?tr0 @ ext, fl)"
    and fin: "try_except lg
       (case fl of
          Raise m \<Rightarrow> (?tr0 @ ext, Inl m)
        | Return bd c \<Rightarrow> (?tr0 @ ext, Inr (bd, c))
        | Normal s \<Rightarrow> log_and_return lg (?tr0 @ ext) a b (outputs s) (gql_query s))
     = (tr, out)"
    by (rule run_long_shape)
  from finish_shape [OF fin] obtain ls where
    tr: "tr = (?tr0 @ ext) @ ls" and ls: "\<forall>ev \<in> set ls. \<exists>c r. ev = Logged c r" by blast
  from tr ev have "?tr0 @ (ext @ ls) = pre @ ?B # post" by simp
  moreover have "?B \<notin> set ?tr0" by (simp add: fst_resolve_path_length)
  ultimately have "\<exists>pre'. pre = ?tr0 @ pre' \<and> ext @ ls = pre' @ ?B # post"
    by (rule split_after)
  then obtain pre' where "ext @ ls = pre' @ ?B # post" by blast
  moreover from ls have "?B \<notin> set ls" by auto
  ultimately have "\<exists>post'. ext = pre' @ ?B # post' \<and> post = post' @ ls"
    by (rule split_before)
  then obtain post0 where ext: "ext = pre' @ ?B # post0" and post: "post = post0 @ ls"
    by blast
  from chunk_loop_boundary [OF loop] obtain ext' where
    "?tr0 @ ext = ?tr0 @ ext'" and
    q: "\<And>pre n c ans post. ext' = pre @ Executed (End_node_query n c) ans # post \<Longrightarrow>
        c = 20 \<and>
        (\<forall>r rs. ans = Inr (r # rs) \<and> 2 \<le> length r \<longrightarrow>
           (\<exists>ans' post'. post = Executed (Gql_query_chunk n (r ! 1) 20) ans' # post'))"
    by blast
  then have "ext' = pre' @ ?B # post0" using ext by simp
  from q [OF this] post show ?thesis by fastforce
qed

text \<open>The request for node 22 above: node 99 of the first row is the target of the segment
  query that follows.\<close>

theorem boundary_query_ignores_destination_witness:
  "run_graph_query store_fork quiet (Integer 1) (Integer 22)
     = ([Executed (Path_length_query 1 22) (Inr [[21]])]
        @ Executed (End_node_query 1 20) (Inr [[20, 99], [20, 21]])
        # [Executed (Gql_query_chunk 1 99 20) (Inr (chain_rows 1 19 @ [[20, 2020, 99]])),
           Executed (Gql_query_chunk 99 22 1) (Inr []),
           Logged (Log_struct
                \<lparr>message = success_message 1 22,
                   query = render (Gql_query_chunk 1 99 20) @ render (Gql_query_chunk 99 22 1),
                   result_count = 20,
                   results = map output_of_row (chain_rows 1 19 @ [[20, 2020, 99]])\<rparr>
                INFO) None],
        Response (Outputs_body (map output_of_row (chain_rows 1 19 @ [[20, 2020, 99]]))) 200)
   \<and> 2 \<le> length [20, 99 :: int]
   \<and> hd [Executed (Gql_query_chunk 1 99 20) (Inr (chain_rows 1 19 @ [[20, 2020, 99]])),
           Executed (Gql_query_chunk 99 22 1) (Inr []),
           Logged (Log_struct
                \<lparr>message = success_message 1 22,
                   query = render (Gql_query_chunk 1 99 20) @ render (Gql_query_chunk 99 22 1),
                   result_count = 20,
                   results = map output_of_row (chain_rows 1 19 @ [[20, 2020, 99]])\<rparr>
                INFO) None]
       = Executed (Gql_query_chunk 1 ([20, 99] ! 1) 20) (Inr (chain_rows 1 19 @ [[20, 2020, 99]]))"
proof -
  have r: "run_graph_query store_fork quiet (Integer 1) (Integer 22)
     = ([Executed (Path_length_query 1 22) (Inr [[21]])]
        @ Executed (End_node_query 1 20) (Inr [[20, 99], [20, 21]])
        # [Executed (Gql_query_chunk 1 99 20) (Inr (chain_rows 1 19 @ [[20, 2020, 99]])),
           Executed (Gql_query_chunk 99 22 1) (Inr []),
           Logged (Log_struct
                \<lparr>message = success_message 1 22,
                   query = render (Gql_query_chunk 1 99 20) @ render (Gql_query_chunk 99 22 1),
                   result_count = 20,
                   results = map output_of_row (chain_rows 1 19 @ [[20, 2020, 99]])\<rparr>
                INFO) None],
        Response (Outputs_body (map output_of_row (chain_rows 1 19 @ [[20, 2020, 99]]))) 200)"
    by (simp only: run_fork_22 append.simps)
  from boundary_query_ignores_destination [OF r refl] r show ?thesis by simp
qed

subsection \<open>C7: how a query text is built\<close>

text \<open>
  Claim C7, as stated, fails.  The text that the store receives for the start node 1 and
  the text for the start node 2 differ: the values are part of the text, in both source
  files.
\<close>

theorem query_text_varies_with_values_counterexample:
  "render (Path_length_query 1 48) =
     ''\<newline>            Graph INVENTARIO2\<newline>            MATCH\<newline>            ANY SHORTEST (\<newline>            (src:NODO {NODEID: 1})-[s:SEGMENTO | REVERSE_SEGMENTO]->{1, 100}(dest:NODO {NODEID: 48})\<newline>            )\<newline>            LET path_length = COUNT(s)\<newline>            RETURN  path_length\<newline>        ''
   \<and> render (Path_length_query 2 48) =
     ''\<newline>            Graph INVENTARIO2\<newline>            MATCH\<newline>            ANY SHORTEST (\<newline>            (src:NODO {NODEID: 2})-[s:SEGMENTO | REVERSE_SEGMENTO]->{1, 100}(dest:NODO {NODEID: 48})\<newline>            )\<newline>            LET path_length = COUNT(s)\<newline>            RETURN  path_length\<newline>        ''
   \<and> render (Path_length_query 1 48) \<noteq> render (Path_length_query 2 48)
   \<and> render (Gql_query_basic 1 48) \<noteq> render (Gql_query_basic 2 48)"
  by (simp add: text_simps)

text \<open>
  Claim C7, amended.  Every query is sent as a text alone: no parameter is bound.  The text
  is a fixed template for each of the query shapes, with the decimal texts of the integers
  (start node, end node, hop count) formatted in.  The values are integers, so each text
  that is formatted in is not empty and consists of decimal digits and the minus sign only.
\<close>

theorem query_text_is_formatted_from_integers:
  "(\<forall>st tr q. execute_sql st tr q =
       (tr @ [Executed q (st (queries_issued tr) (render q))], st (queries_issued tr) (render q)))
   \<and> (\<exists>p0 p1 p2. \<forall>a b.
         render (Path_length_query a b) = p0 @ str_int a @ p1 @ str_int b @ p2)
   \<and> (\<exists>p0 p1 p2 p3. \<forall>a c.
         render (End_node_query a c) = p0 @ str_int a @ p1 @ str_int c @ p2 @ str_int c @ p3)
   \<and> (\<exists>p0 p1 p2 p3. \<forall>a b c.
         render (Gql_query_chunk a b c) = p0 @ str_int a @ p1 @ str_int c @ p2 @ str_int b @ p3)
   \<and> (\<exists>p0 p1 p2 p3. \<forall>a b L.
         render (Gql_query a b L) = p0 @ str_int a @ p1 @ str_int L @ p2 @ str_int b @ p3)
   \<and> (\<exists>p0 p1 p2. \<forall>a b.
         render (Gql_query_basic a b) = p0 @ str_int a @ p1 @ str_int b @ p2)
   \<and> (\<forall>i. str_int i \<noteq> [] \<and> set (str_int i) \<subseteq> set ''-0123456789'')"
proof (intro conjI)
  show "\<forall>st tr q. execute_sql st tr q =
       (tr @ [Executed q (st (queries_issued tr) (render q))], st (queries_issued tr) (render q))"
    by (simp add: execute_sql_def Let_def)
  show "\<exists>p0 p1 p2. \<forall>a b.
         render (Path_length_query a b) = p0 @ str_int a @ p1 @ str_int b @ p2"
    by (intro exI allI) (rule render.simps)
  show "\<exists>p0 p1 p2 p3. \<forall>a c.
         render (End_node_query a c) = p0 @ str_int a @ p1 @ str_int c @ p2 @ str_int c @ p3"
    by (intro exI allI) (rule render.simps)
  show "\<exists>p0 p1 p2 p3. \<forall>a b c.
         render (Gql_query_chunk a b c) = p0 @ str_int a @ p1 @ str_int c @ p2 @ str_int b @ p3"
    by (intro exI allI) (rule render.simps)
  show "\<exists>p0 p1 p2 p3. \<forall>a b L.
         render (Gql_query a b L) = p0 @ str_int a @ p1 @ str_int L @ p2 @ str_int b @ p3"
    by (intro exI allI) (rule render.simps)
  show "\<exists>p0 p1 p2. \<forall>a b.
         render (Gql_query_basic a b) = p0 @ str_int a @ p1 @ str_int b @ p2"
    by (intro exI allI) (rule render.simps)
  show "\<forall>i. str_int i \<noteq> [] \<and> set (str_int i) \<subseteq> set ''-0123456789''"
  proof (intro allI conjI)
    fix i
    have "str_nat n \<noteq> []" for n by (subst str_nat.simps) simp
    then show "str_int i \<noteq> []" by (simp add: str_int_def)
    show "set (str_int i) \<subseteq> set ''-0123456789''" by (rule str_int_chars)
  qed
qed

text \<open>The end node \<open>-48\<close> is formatted in as a minus sign and two digits.\<close>

theorem query_text_is_formatted_from_integers_witness:
  "str_int (- 48) = ''-48'' \<and> set (str_int (- 48)) \<subseteq> set ''-0123456789''"
proof -
  from query_text_is_formatted_from_integers
  have "\<forall>i. str_int i \<noteq> [] \<and> set (str_int i) \<subseteq> set ''-0123456789''"
    by (elim conjE)
  then have "set (str_int (- 48)) \<subseteq> set ''-0123456789''" by (elim allE conjE)
  moreover have "str_int (- 48) = ''-48''" by (simp add: text_simps)
  ultimately show ?thesis by (intro conjI)
qed

subsection \<open>C8: a logging call that raises\<close>

text \<open>
  Claim C8, as stated, fails.  With a logging sink that takes every call, the request for
  the pair (1, 4) answers 200 with the three edges.  With a sink that raises on the
  structured record, the same request on the same store answers 500: the logging call is
  inside the \<open>try\<close> statement.  Both source files behave so.
\<close>

theorem logging_failure_counterexample:
  "snd (run_graph_query store3 quiet (Integer 1) (Integer 4))
     = Response (Outputs_body (map output_of_row (chain_rows 1 3))) 200
   \<and> snd (run_graph_query store3 struct_down (Integer 1) (Integer 4))
     = Response (Error_body ''An error occurred: logging unavailable'') 500
   \<and> snd (run_graph_query_basic store_basic quiet (Integer 1) (Integer 4))
     = Response (Outputs_body (map output_of_row (chain_rows 1 3))) 200
   \<and> snd (run_graph_query_basic store_basic struct_down (Integer 1) (Integer 4))
     = Response (Error_body ''An error occurred: logging unavailable'') 500"
  by (simp only: run3_quiet run3_down run_basic_quiet run_basic_down snd_conv simp_thms)

text \<open>
  Claim C8, amended.  The structured logging call is made once, inside the \<open>try\<close>
  statement, when the edges have been collected.  When it returns, the response is 200 with
  the edges of the record.  When it raises, the handler of the \<open>try\<close> statement takes the
  exception: the response is 500 with the text of the exception, and the edges are not
  returned (and when the logging call of the handler raises too, the exception leaves the
  function).  This holds for both source files.
\<close>

theorem logging_failure_fails_the_request:
  assumes run: "run_graph_query st lg (Integer a) (Integer b) = (tr, out)
              \<or> run_graph_query_basic st lg (Integer a) (Integer b) = (tr, out)"
    and ev: "Logged (Log_struct rec sev) res \<in> set tr"
  shows "(res = None \<longrightarrow> out = Response (Outputs_body (results rec)) 200)
       \<and> (\<forall>m. res = Some m \<longrightarrow>
            out = (case lg (Log_text (error_occurred m) ERROR) of
                     Some m' \<Rightarrow> Unhandled m'
                   | None \<Rightarrow> Response (Error_body (error_occurred m)) 500))"
  using run
proof
  assume basic: "run_graph_query_basic st lg (Integer a) (Integer b) = (tr, out)"
  let ?q = "Gql_query_basic a b"
  let ?tr1 = "[Executed ?q (st 0 (render ?q))]"
  have no: "\<And>rec sev res. Logged (Log_struct rec sev) res \<notin> set ?tr1" by simp
  show ?thesis
  proof (cases "case st 0 (render ?q) of Inl m \<Rightarrow> Inl m | Inr rows \<Rightarrow> append_rows [] rows")
    case (Inl m)
    with basic have "try_except lg (?tr1, Inl m) = (tr, out)"
      by (simp add: try_block_basic_def fetch_edges_eq queries_issued_def)
    from raise_no_struct [OF this no] ev show ?thesis by simp
  next
    case (Inr outs)
    with basic have "try_except lg (log_and_return lg ?tr1 a b outs (render ?q)) = (tr, out)"
      by (simp add: try_block_basic_def fetch_edges_eq queries_issued_def)
    from finish_struct [OF this no ev] show ?thesis .
  qed
next
  assume dq: "run_graph_query st lg (Integer a) (Integer b) = (tr, out)"
  let ?tr0 = "fst (resolve_path_length st [] a b)"
  have no0: "\<And>rec sev res. Logged (Log_struct rec sev) res \<notin> set ?tr0"
    by (simp add: fst_resolve_path_length)
  show ?thesis
  proof (cases rule: resolved_cases [of st a b])
    case (failed m)
    with dq have "try_except lg (?tr0, Inl m) = (tr, out)"
      by (simp add: try_block_failed)
    from raise_no_struct [OF this no0] ev show ?thesis by simp
  next
    case none
    with dq ev show ?thesis
      by (cases "lg (Log_text no_path_message WARNING)")
         (auto simp: try_block_none fst_resolve_path_length except_block_eq)
  next
    case (short L)
    let ?q = "Gql_query a b L"
    let ?tr1 = "?tr0 @ [Executed ?q (st (queries_issued ?tr0) (render ?q))]"
    have no: "\<And>rec sev res. Logged (Log_struct rec sev) res \<notin> set ?tr1"
      by (simp add: fst_resolve_path_length)
    show ?thesis
    proof (cases "case st (queries_issued ?tr0) (render ?q) of
                    Inl m \<Rightarrow> Inl m | Inr rows \<Rightarrow> append_rows [] rows")
      case (Inl m)
      with dq short have "try_except lg (?tr1, Inl m) = (tr, out)"
        by (simp add: try_block_short fetch_edges_eq)
      from raise_no_struct [OF this no] ev show ?thesis by simp
    next
      case (Inr outs)
      with dq short have "try_except lg (log_and_return lg ?tr1 a b outs (render ?q)) = (tr, out)"
        by (simp add: try_block_short fetch_edges_eq)
      from finish_struct [OF this no ev] show ?thesis .
    qed
  next
    case (long L)
    from dq long obtain ext fl where
      loop: "chunk_loop st lg b ?tr0
         \<lparr>remaining_path_length = L, current_start_node = a, outputs = [], gql_query = []\<rparr>
         = (?tr0 @ ext, fl)"
      and fin: "try_except lg
         (case fl of
            Raise m \<Rightarrow> (?tr0 @ ext, Inl m)
          | Return bd c \<Rightarrow> (?tr0 @ ext, Inr (bd, c))
          | Normal s \<Rightarrow> log_and_return lg (?tr0 @ ext) a b (outputs s) (gql_query s))
       = (tr, out)"
      by (rule run_long_shape)
    from chunk_loop_no_struct [OF loop] no0
    have no: "\<And>rec sev res. Logged (Log_struct rec sev) res \<notin> set (?tr0 @ ext)"
      by auto
    show ?thesis
    proof (cases fl)
      case (Normal s)
      with fin have "try_except lg (log_and_return lg (?tr0 @ ext) a b (outputs s) (gql_query s))
          = (tr, out)" by simp
      from finish_struct [OF this no ev] show ?thesis .
    next
      case (Return bd c)
      with fin have "tr = ?tr0 @ ext" by simp
      with no ev show ?thesis by simp
    next
      case (Raise m)
      with fin have "try_except lg (?tr0 @ ext, Inl m) = (tr, out)" by simp
      from raise_no_struct [OF this no] ev show ?thesis by simp
    qed
  qed
qed

text \<open>A sink that raises on the record, and a sink that takes it.\<close>

theorem logging_failure_fails_the_request_witness:
  "Logged (Log_struct \<lparr>message = success_message 1 4, query = render (Gql_query 1 4 3),
                         result_count = 3, results = map output_of_row (chain_rows 1 3)\<rparr> INFO)
     (Some ''logging unavailable'')
     \<in> set (fst (run_graph_query store3 struct_down (Integer 1) (Integer 4)))
   \<and> snd (run_graph_query store3 struct_down (Integer 1) (Integer 4))
       = Response (Error_body (error_occurred ''logging unavailable'')) 500
   \<and> Logged (Log_struct \<lparr>message = success_message 1 4, query = render (Gql_query_basic 1 4),
                         result_count = 3, results = map output_of_row (chain_rows 1 3)\<rparr> INFO)
     None
     \<in> set (fst (run_graph_query_basic store_basic quiet (Integer 1) (Integer 4)))
   \<and> snd (run_graph_query_basic store_basic quiet (Integer 1) (Integer 4))
       = Response (Outputs_body (map output_of_row (chain_rows 1 3))) 200"
proof -
  let ?ev = "Logged (Log_struct \<lparr>message = success_message 1 4, query = render (Gql_query 1 4 3),
                         result_count = 3, results = map output_of_row (chain_rows 1 3)\<rparr> INFO)
     (Some ''logging unavailable'')"
  let ?ev' = "Logged (Log_struct \<lparr>message = success_message 1 4, query = render (Gql_query_basic 1 4),
                         result_count = 3, results = map output_of_row (chain_rows 1 3)\<rparr> INFO)
     None"
  have r: "run_graph_query store3 struct_down (Integer 1) (Integer 4)
      = (fst (run_graph_query store3 struct_down (Integer 1) (Integer 4)),
         snd (run_graph_query store3 struct_down (Integer 1) (Integer 4)))"
    by (simp only: prod.collapse)
  have ev: "?ev \<in> set (fst (run_graph_query store3 struct_down (Integer 1) (Integer 4)))"
    by (simp only: run3_down fst_conv) simp
  have r': "run_graph_query_basic store_basic quiet (Integer 1) (Integer 4)
      = (fst (run_graph_query_basic store_basic quiet (Integer 1) (Integer 4)),
         snd (run_graph_query_basic store_basic quiet (Integer 1) (Integer 4)))"
    by (simp only: prod.collapse)
  have ev': "?ev' \<in> set (fst (run_graph_query_basic store_basic quiet (Integer 1) (Integer 4)))"
    by (simp only: run_basic_quiet fst_conv) simp
  from logging_failure_fails_the_request [OF disjI1 [OF r] ev]
    logging_failure_fails_the_request [OF disjI2 [OF r'] ev'] ev ev'
  show ?thesis
    by (simp add: struct_down_def)
qed

subsection \<open>C9: the hop cap of the length query\<close>

text \<open>
  Claim C9.  The text of the length query has the hop range \<open>{1, 100}\<close>, whatever the
  nodes are.  When the store has no row for it, which is what a hop-bounded store answers
  for a pair whose shortest path has more than 100 edges, \<open>path_length\<close> stays 0 and the
  request answers 200 with the message that no path was found and \<open>path_length\<close> 0 (the
  logging sink taking the warning).
\<close>

theorem length_query_is_capped_at_100_hops:
  assumes "st 0 (render (Path_length_query a b)) = Inr []"
    and "lg (Log_text no_path_message WARNING) = None"
  shows "render (Path_length_query a b) =
           ''\<newline>            Graph INVENTARIO2\<newline>            MATCH\<newline>            ANY SHORTEST (\<newline>            (src:NODO {NODEID: ''
           @ str_int a @ ''})-[s:SEGMENTO | REVERSE_SEGMENTO]->{1, 100}(dest:NODO {NODEID: '' @ str_int b
           @ ''})\<newline>            )\<newline>            LET path_length = COUNT(s)\<newline>            RETURN  path_length\<newline>        ''
       \<and> run_graph_query st lg (Integer a) (Integer b) =
           ([Executed (Path_length_query a b) (Inr []),
             Logged (Log_text no_path_message WARNING) None],
            Response (Message_body ''No path found between the specified nodes.'' 0) 200)"
proof -
  from assms(1) have "snd (resolve_path_length st [] a b) = Inr 0"
    by (simp add: resolve_path_length_eq queries_issued_def)
  with assms show ?thesis
    by (simp add: try_block_none fst_resolve_path_length render.simps no_path_message_def)
qed

text \<open>A store that answers 100 for the pair (1, 101) and has no row for the pair
  (1, 102).\<close>

theorem length_query_is_capped_at_100_hops_witness:
  "store_far 0 (render (Path_length_query 1 101)) = Inr [[100]]
   \<and> store_far 0 (render (Path_length_query 1 102)) = Inr []
   \<and> run_graph_query store_far quiet (Integer 1) (Integer 102) =
        ([Executed (Path_length_query 1 102) (Inr []),
          Logged (Log_text no_path_message WARNING) None],
         Response (Message_body ''No path found between the specified nodes.'' 0) 200)"
proof -
  have a: "store_far 0 (render (Path_length_query 1 102)) = Inr []"
    by (simp add: store_far_def table_store_def text_simps)
  have b: "store_far 0 (render (Path_length_query 1 101)) = Inr [[100]]"
    by (simp add: store_far_def table_store_def text_simps)
  have q: "quiet (Log_text no_path_message WARNING) = None" by (simp add: quiet_def)
  from length_query_is_capped_at_100_hops [of store_far 1 102 quiet, OF a q] a b show ?thesis by simp
qed

subsection \<open>C10: the loop ends\<close>

text \<open>
  Claim C10.  The chunking loop ends for every state with a positive remaining length:
  \<open>chunk_size\<close> is at least 1, an iteration that goes on takes it off the remaining length,
  which stays at or above 0, and \<open>\<lceil>remaining / 20\<rceil>\<close> iterations are enough for the loop to
  be left, with the result of the loop itself.
\<close>

theorem chunk_loop_terminates:
  assumes "0 < remaining_path_length s"
  shows "chunk_loop_bounded (nat \<lceil>real_of_int (remaining_path_length s) / 20\<rceil>) st lg e tr s
           = Some (chunk_loop st lg e tr s)
       \<and> 1 \<le> min 20 (remaining_path_length s)
       \<and> (\<forall>tr' s'. loop_body st lg e tr s = (tr', Normal s') \<longrightarrow>
             remaining_path_length s' = remaining_path_length s - min 20 (remaining_path_length s)
           \<and> 0 \<le> remaining_path_length s'
           \<and> remaining_path_length s' < remaining_path_length s)"
proof -
  have "0 \<le> (remaining_path_length s - 1) div 20" using assms by simp
  then have "(remaining_path_length s - 1) div 20 + 1
      \<le> int (nat \<lceil>real_of_int (remaining_path_length s) / 20\<rceil>)"
    by (simp add: ceiling_20)
  then have first: "chunk_loop_bounded (nat \<lceil>real_of_int (remaining_path_length s) / 20\<rceil>) st lg e tr s
           = Some (chunk_loop st lg e tr s)"
    by (rule chunk_loop_bounded_enough)
  have second: "1 \<le> min 20 (remaining_path_length s)" using assms by simp
  have third: "remaining_path_length s' = remaining_path_length s - min 20 (remaining_path_length s)
           \<and> 0 \<le> remaining_path_length s'
           \<and> remaining_path_length s' < remaining_path_length s"
    if "loop_body st lg e tr s = (tr', Normal s')" for tr' s'
    using loop_body_decreases [OF that] assms by simp
  from first second third show ?thesis by blast
qed

text \<open>A remaining length of 47: the first iteration leaves 27, three iterations are
  enough.\<close>

theorem chunk_loop_terminates_witness:
  "0 < remaining_path_length
         \<lparr>remaining_path_length = 47, current_start_node = 1, outputs = [], gql_query = []\<rparr>
   \<and> chunk_loop_bounded 3 store47 quiet 48 []
         \<lparr>remaining_path_length = 47, current_start_node = 1, outputs = [], gql_query = []\<rparr>
       = Some (chunk_loop store47 quiet 48 []
         \<lparr>remaining_path_length = 47, current_start_node = 1, outputs = [], gql_query = []\<rparr>)
   \<and> loop_body store47 quiet 48 []
         \<lparr>remaining_path_length = 47, current_start_node = 1, outputs = [], gql_query = []\<rparr>
       = ([Executed (End_node_query 1 20) (Inr [[20, 21]]),
           Executed (Gql_query_chunk 1 21 20) (Inr (chain_rows 1 20))],
          Normal \<lparr>remaining_path_length = 27, current_start_node = 21,
                   outputs = map output_of_row (chain_rows 1 20),
                   gql_query = render (Gql_query_chunk 1 21 20)\<rparr>)
   \<and> (27::int) = 47 - min 20 47 \<and> (0::int) \<le> 27 \<and> (27::int) < 47"
proof -
  let ?s = "\<lparr>remaining_path_length = 47, current_start_node = 1, outputs = [], gql_query = []\<rparr>"
  have body: "loop_body store47 quiet 48 [] ?s
       = ([Executed (End_node_query 1 20) (Inr [[20, 21]]),
           Executed (Gql_query_chunk 1 21 20) (Inr (chain_rows 1 20))],
          Normal \<lparr>remaining_path_length = 27, current_start_node = 21,
                   outputs = map output_of_row (chain_rows 1 20),
                   gql_query = render (Gql_query_chunk 1 21 20)\<rparr>)"
    by (simp add: run_simps store47_answers)
  have pos: "0 < remaining_path_length ?s" by simp
  from chunk_loop_terminates [OF pos, of store47 quiet 48 "[]"] body show ?thesis
    by simp
qed

end
